theory Spec2Isabelle
  imports Complex_Main
begin

section \<open>Python and SQLite values\<close>

text \<open>
  The bot is a single Python module (\<^verbatim>\<open>main.py\<close>) on top of \<^verbatim>\<open>sqlite3\<close>,
  \<^verbatim>\<open>datetime\<close> and the python-telegram-bot framework. Python integers are
  unbounded and modelled as \<open>int\<close>. A Python \<^verbatim>\<open>float\<close> is modelled by its
  value: a real number, one of the two infinities, or the not-a-number value. Rounding
  to the nearest double is abstracted away (the finite values are exact reals); the
  special values are kept, because the comparisons of the source treat them
  differently from numbers.
\<close>

datatype pyfloat = Fin real | PInf | NInf | NaN

text \<open>\<^verbatim>\<open>x <= 0\<close> and \<^verbatim>\<open>x > 0\<close> on a float: every comparison with NaN is false.\<close>

fun float_le_zero :: "pyfloat \<Rightarrow> bool" where
  "float_le_zero (Fin r) = (r \<le> 0)"
| "float_le_zero NInf = True"
| "float_le_zero PInf = False"
| "float_le_zero NaN = False"

fun float_gt_zero :: "pyfloat \<Rightarrow> bool" where
  "float_gt_zero (Fin r) = (0 < r)"
| "float_gt_zero PInf = True"
| "float_gt_zero NInf = False"
| "float_gt_zero NaN = False"

text \<open>\<^verbatim>\<open>x * y\<close> and \<^verbatim>\<open>x + y\<close> on floats, with the IEEE rules for the special values.\<close>

fun float_sign :: "pyfloat \<Rightarrow> int" where
  "float_sign (Fin r) = (if 0 < r then 1 else if r < 0 then -1 else 0)"
| "float_sign PInf = 1"
| "float_sign NInf = -1"
| "float_sign NaN = 0"

fun float_mul :: "pyfloat \<Rightarrow> pyfloat \<Rightarrow> pyfloat" where
  "float_mul NaN y = NaN"
| "float_mul x NaN = NaN"
| "float_mul (Fin a) (Fin b) = Fin (a * b)"
| "float_mul x y =
     (if float_sign x * float_sign y = 0 then NaN
      else if 0 < float_sign x * float_sign y then PInf else NInf)"

fun float_add :: "pyfloat \<Rightarrow> pyfloat \<Rightarrow> pyfloat" where
  "float_add NaN y = NaN"
| "float_add x NaN = NaN"
| "float_add (Fin a) (Fin b) = Fin (a + b)"
| "float_add PInf NInf = NaN"
| "float_add NInf PInf = NaN"
| "float_add PInf y = PInf"
| "float_add NInf y = NInf"
| "float_add x PInf = PInf"
| "float_add x NInf = NInf"

text \<open>\<^verbatim>\<open>float * int\<close>: the integer is converted to a float first.\<close>

definition float_of_int :: "int \<Rightarrow> pyfloat" where
  "float_of_int i = Fin (of_int i)"

definition float_mul_int :: "pyfloat \<Rightarrow> int \<Rightarrow> pyfloat" where
  "float_mul_int x i = float_mul x (float_of_int i)"

text \<open>
  A value read from or bound to a \<^verbatim>\<open>REAL\<close> column is a float or \<^verbatim>\<open>None\<close>
  (SQL \<^verbatim>\<open>NULL\<close>). SQLite has no NaN: binding a NaN stores \<^verbatim>\<open>NULL\<close>.
\<close>

type_synonym sqlreal = "pyfloat option"

fun sql_bind_real :: "pyfloat option \<Rightarrow> sqlreal" where
  "sql_bind_real None = None"
| "sql_bind_real (Some NaN) = None"
| "sql_bind_real (Some x) = Some x"

section \<open>Strings\<close>

text \<open>
  A \<open>string\<close> is a list of bytes. The models of \<^verbatim>\<open>str.strip\<close>, \<^verbatim>\<open>str.lower\<close>,
  \<^verbatim>\<open>int\<close>, \<^verbatim>\<open>float\<close> and \<^verbatim>\<open>strptime\<close> below cover ASCII text; the Unicode
  white space and Unicode digits that Python also accepts are outside the model.
\<close>

definition is_space :: "char \<Rightarrow> bool" where
  "is_space c = (c \<in> set [CHR 0x09, CHR 0x0A, CHR 0x0B, CHR 0x0C, CHR 0x0D,
                           CHR 0x1C, CHR 0x1D, CHR 0x1E, CHR 0x1F, CHR '' ''])"

definition strip :: "string \<Rightarrow> string" where
  "strip s = rev (dropWhile is_space (rev (dropWhile is_space s)))"

definition lower_char :: "char \<Rightarrow> char" where
  "lower_char c =
     (if (65::nat) \<le> of_char c \<and> of_char c \<le> (90::nat) then char_of (of_char c + (32::nat)) else c)"

definition lower :: "string \<Rightarrow> string" where
  "lower s = map lower_char s"

definition is_digit :: "char \<Rightarrow> bool" where
  "is_digit c = ((48::nat) \<le> of_char c \<and> of_char c \<le> (57::nat))"

definition digit_val :: "char \<Rightarrow> nat" where
  "digit_val c = of_char c - 48"

definition digit_char :: "nat \<Rightarrow> char" where
  "digit_char n = char_of (48 + n mod 10)"

text \<open>
  A digit part of a Python numeric literal: decimal digits, with single underscores
  allowed between two digits. \<open>digits_from acc n s\<close> continues after a digit, with the
  value \<open>acc\<close> of the \<open>n\<close> digits read so far; the result is the value and the number
  of digits.
\<close>

fun digits_from :: "nat \<Rightarrow> nat \<Rightarrow> string \<Rightarrow> (nat \<times> nat) option" where
  "digits_from acc n [] = Some (acc, n)"
| "digits_from acc n [c] =
     (if is_digit c then Some (acc * 10 + digit_val c, Suc n) else None)"
| "digits_from acc n (c # d # cs) =
     (if is_digit c then digits_from (acc * 10 + digit_val c) (Suc n) (d # cs)
      else if c = CHR ''_'' \<and> is_digit d then digits_from (acc * 10 + digit_val d) (Suc n) cs
      else None)"

definition digit_part :: "string \<Rightarrow> (nat \<times> nat) option" where
  "digit_part s =
     (case s of [] \<Rightarrow> None
      | c # cs \<Rightarrow> if is_digit c then digits_from (digit_val c) 1 cs else None)"

text \<open>
  \<^verbatim>\<open>int(text)\<close> for a string: surrounding white space, an optional sign, a digit
  part in base 10. \<open>None\<close> stands for the \<^verbatim>\<open>ValueError\<close>.
\<close>

definition py_int :: "string \<Rightarrow> int option" where
  "py_int text =
     (case strip text of
        [] \<Rightarrow> None
      | c # cs \<Rightarrow>
          if c = CHR ''-'' then map_option (\<lambda>(v, n). - int v) (digit_part cs)
          else if c = CHR ''+'' then map_option (\<lambda>(v, n). int v) (digit_part cs)
          else map_option (\<lambda>(v, n). int v) (digit_part (c # cs)))"

text \<open>
  \<^verbatim>\<open>float(text)\<close> for a string: surrounding white space, an optional sign, then
  \<^verbatim>\<open>inf\<close>, \<^verbatim>\<open>infinity\<close> or \<^verbatim>\<open>nan\<close> in any letter case, or a decimal number
  \<^verbatim>\<open>[digits].digits\<close> or \<^verbatim>\<open>digits[.]\<close> with an optional exponent. \<open>None\<close> stands
  for the \<^verbatim>\<open>ValueError\<close>. The value of a decimal number is the exact real (for a
  literal beyond the range of a double, Python gives an infinity or zero instead).
\<close>

definition is_exp_char :: "char \<Rightarrow> bool" where
  "is_exp_char c = (c = CHR ''e'' \<or> c = CHR ''E'')"

definition float_exponent :: "string \<Rightarrow> int option" where
  "float_exponent s =
     (case s of
        [] \<Rightarrow> Some 0
      | e # r \<Rightarrow>
          (case r of
             [] \<Rightarrow> None
           | c # cs \<Rightarrow>
               if c = CHR ''-'' then map_option (\<lambda>(v, n). - int v) (digit_part cs)
               else if c = CHR ''+'' then map_option (\<lambda>(v, n). int v) (digit_part cs)
               else map_option (\<lambda>(v, n). int v) (digit_part (c # cs))))"

definition float_mantissa :: "string \<Rightarrow> real option" where
  "float_mantissa m =
     (let ip = takeWhile (\<lambda>c. c \<noteq> CHR ''.'') m;
          dot = dropWhile (\<lambda>c. c \<noteq> CHR ''.'') m
      in if dot = [] then map_option (\<lambda>(v, n). real v) (digit_part ip)
         else if ip = [] then map_option (\<lambda>(f, n). real f / 10 ^ n) (digit_part (tl dot))
         else if tl dot = [] then map_option (\<lambda>(v, n). real v) (digit_part ip)
         else (case (digit_part ip, digit_part (tl dot)) of
                 (Some (v, n), Some (f, k)) \<Rightarrow> Some (real v + real f / 10 ^ k)
               | _ \<Rightarrow> None))"

definition float_number :: "string \<Rightarrow> real option" where
  "float_number s =
     (case (float_mantissa (takeWhile (\<lambda>c. \<not> is_exp_char c) s),
            float_exponent (dropWhile (\<lambda>c. \<not> is_exp_char c) s)) of
        (Some m, Some e) \<Rightarrow> Some (if 0 \<le> e then m * 10 ^ nat e else m / 10 ^ nat (- e))
      | _ \<Rightarrow> None)"

definition abs_float_value :: "string \<Rightarrow> pyfloat option" where
  "abs_float_value s =
     (if lower s = ''inf'' \<or> lower s = ''infinity'' then Some PInf
      else if lower s = ''nan'' then Some NaN
      else map_option Fin (float_number s))"

fun float_neg :: "pyfloat \<Rightarrow> pyfloat" where
  "float_neg (Fin r) = Fin (- r)"
| "float_neg PInf = NInf"
| "float_neg NInf = PInf"
| "float_neg NaN = NaN"

definition py_float :: "string \<Rightarrow> pyfloat option" where
  "py_float text =
     (case strip text of
        [] \<Rightarrow> None
      | c # cs \<Rightarrow>
          if c = CHR ''-'' then map_option float_neg (abs_float_value cs)
          else if c = CHR ''+'' then abs_float_value cs
          else abs_float_value (c # cs))"

text \<open>\<^verbatim>\<open>str(n)\<close> for an integer, used in the f-string keys of \<^verbatim>\<open>context.user_data\<close>.\<close>

fun str_nat :: "nat \<Rightarrow> string" where
  "str_nat n = (if n < 10 then [digit_char n] else str_nat (n div 10) @ [digit_char n])"

definition str_int :: "int \<Rightarrow> string" where
  "str_int i = (if i < 0 then CHR ''-'' # str_nat (nat (- i)) else str_nat (nat i))"

section \<open>Calendar dates and date-times\<close>

text \<open>
  \<^verbatim>\<open>datetime.date\<close> and the naive \<^verbatim>\<open>datetime.datetime\<close>, with the proleptic
  Gregorian arithmetic of the standard library (\<^verbatim>\<open>_is_leap\<close>, \<^verbatim>\<open>_days_in_month\<close>,
  \<^verbatim>\<open>_days_before_year\<close>, \<^verbatim>\<open>_days_before_month\<close>, \<^verbatim>\<open>_ymd2ord\<close>).
\<close>

record date =
  year :: int
  month :: int
  day :: int

record datetime = date +
  hour :: int
  minute :: int
  second :: int
  microsecond :: int

definition is_leap :: "int \<Rightarrow> bool" where
  "is_leap y = (y mod 4 = 0 \<and> (y mod 100 \<noteq> 0 \<or> y mod 400 = 0))"

definition days_in_month :: "int \<Rightarrow> int \<Rightarrow> int" where
  "days_in_month y m =
     (if m = 2 then (if is_leap y then 29 else 28)
      else if m = 4 \<or> m = 6 \<or> m = 9 \<or> m = 11 then 30 else 31)"

definition days_before_year :: "int \<Rightarrow> int" where
  "days_before_year y = (y - 1) * 365 + (y - 1) div 4 - (y - 1) div 100 + (y - 1) div 400"

definition days_before_month_table :: "int list" where
  "days_before_month_table = [0, 31, 59, 90, 120, 151, 181, 212, 243, 273, 304, 334]"

definition days_before_month :: "int \<Rightarrow> int \<Rightarrow> int" where
  "days_before_month y m =
     days_before_month_table ! nat (m - 1) + (if 2 < m \<and> is_leap y then 1 else 0)"

definition valid_date :: "'a date_scheme \<Rightarrow> bool" where
  "valid_date d = (1 \<le> year d \<and> year d \<le> 9999 \<and> 1 \<le> month d \<and> month d \<le> 12
                   \<and> 1 \<le> day d \<and> day d \<le> days_in_month (year d) (month d))"

definition valid_datetime :: "datetime \<Rightarrow> bool" where
  "valid_datetime t = (valid_date t \<and> 0 \<le> hour t \<and> hour t < 24 \<and> 0 \<le> minute t \<and> minute t < 60
                       \<and> 0 \<le> second t \<and> second t < 60
                       \<and> 0 \<le> microsecond t \<and> microsecond t < 1000000)"

text \<open>\<^verbatim>\<open>date.toordinal()\<close>; \<^verbatim>\<open>(a - b).days\<close> is the difference of the ordinals.\<close>

definition toordinal :: "'a date_scheme \<Rightarrow> int" where
  "toordinal d = days_before_year (year d) + days_before_month (year d) (month d) + day d"

definition days_between :: "'a date_scheme \<Rightarrow> 'b date_scheme \<Rightarrow> int" where
  "days_between a b = toordinal a - toordinal b"

text \<open>Dates and date-times compare field by field, like the tuples of their fields.\<close>

definition date_less :: "'a date_scheme \<Rightarrow> 'b date_scheme \<Rightarrow> bool" where
  "date_less a b = (year a < year b \<or> (year a = year b \<and>
                     (month a < month b \<or> (month a = month b \<and> day a < day b))))"

definition date_eq :: "'a date_scheme \<Rightarrow> 'b date_scheme \<Rightarrow> bool" where
  "date_eq a b = (year a = year b \<and> month a = month b \<and> day a = day b)"

definition time_less :: "datetime \<Rightarrow> datetime \<Rightarrow> bool" where
  "time_less a b = (hour a < hour b \<or> (hour a = hour b \<and>
                     (minute a < minute b \<or> (minute a = minute b \<and>
                       (second a < second b \<or> (second a = second b \<and>
                          microsecond a < microsecond b))))))"

definition datetime_le :: "datetime \<Rightarrow> datetime \<Rightarrow> bool" where
  "datetime_le a b = (date_less a b \<or> (date_eq a b \<and> (time_less a b \<or> a = b)))"

text \<open>The \<^verbatim>\<open>%0wd\<close> conversion, and \<^verbatim>\<open>isoformat()\<close> of a date and of a date-time
  (the fraction is left out when the microsecond is zero).\<close>

definition zero_pad :: "nat \<Rightarrow> int \<Rightarrow> string" where
  "zero_pad w i =
     (if i < 0
      then CHR ''-'' # replicate (w - 1 - length (str_nat (nat (- i)))) CHR ''0'' @ str_nat (nat (- i))
      else replicate (w - length (str_nat (nat i))) CHR ''0'' @ str_nat (nat i))"

definition date_isoformat :: "'a date_scheme \<Rightarrow> string" where
  "date_isoformat d =
     zero_pad 4 (year d) @ ''-'' @ zero_pad 2 (month d) @ ''-'' @ zero_pad 2 (day d)"

definition datetime_isoformat :: "datetime \<Rightarrow> string" where
  "datetime_isoformat t =
     date_isoformat t @ ''T'' @ zero_pad 2 (hour t) @ '':'' @ zero_pad 2 (minute t)
       @ '':'' @ zero_pad 2 (second t)
       @ (if microsecond t \<noteq> 0 then ''.'' @ zero_pad 6 (microsecond t) else [])"

text \<open>
  \<^verbatim>\<open>datetime.strptime(text, "%Y-%m-%d").date()\<close>. The format compiles to the regular
  expression \<^verbatim>\<open>(\d\d\d\d)-(1[0-2]|0[1-9]|[1-9])-(3[01]|[12]\d|0[1-9]|[1-9]| [1-9])\<close>,
  which must match the whole text; the fields must then form a date. \<open>None\<close> stands
  for the \<^verbatim>\<open>ValueError\<close>.
\<close>

definition month_field :: "string \<Rightarrow> int option" where
  "month_field m =
     (case m of
        [a] \<Rightarrow> if is_digit a \<and> a \<noteq> CHR ''0'' then Some (int (digit_val a)) else None
      | [a, b] \<Rightarrow>
          if a = CHR ''1'' \<and> (b = CHR ''0'' \<or> b = CHR ''1'' \<or> b = CHR ''2'')
            then Some (10 + int (digit_val b))
          else if a = CHR ''0'' \<and> is_digit b \<and> b \<noteq> CHR ''0'' then Some (int (digit_val b))
          else None
      | _ \<Rightarrow> None)"

definition day_field :: "string \<Rightarrow> int option" where
  "day_field d =
     (case d of
        [a] \<Rightarrow> if is_digit a \<and> a \<noteq> CHR ''0'' then Some (int (digit_val a)) else None
      | [a, b] \<Rightarrow>
          if a = CHR ''3'' \<and> (b = CHR ''0'' \<or> b = CHR ''1'') then Some (30 + int (digit_val b))
          else if (a = CHR ''1'' \<or> a = CHR ''2'') \<and> is_digit b
            then Some (10 * int (digit_val a) + int (digit_val b))
          else if (a = CHR ''0'' \<or> a = CHR '' '') \<and> is_digit b \<and> b \<noteq> CHR ''0''
            then Some (int (digit_val b))
          else None
      | _ \<Rightarrow> None)"

definition make_date :: "int \<Rightarrow> int \<Rightarrow> int \<Rightarrow> date option" where
  "make_date y m d =
     (if valid_date \<lparr>year = y, month = m, day = d\<rparr>
      then Some \<lparr>year = y, month = m, day = d\<rparr> else None)"

definition strptime_ymd :: "string \<Rightarrow> date option" where
  "strptime_ymd text =
     (if length text < 5 \<or> \<not> list_all is_digit (take 4 text) \<or> text ! 4 \<noteq> CHR ''-'' then None
      else
        let r = drop 5 text;
            ms = takeWhile (\<lambda>c. c \<noteq> CHR ''-'') r;
            r2 = dropWhile (\<lambda>c. c \<noteq> CHR ''-'') r
        in if r2 = [] then None
           else (case (month_field ms, day_field (tl r2)) of
                   (Some m, Some d) \<Rightarrow>
                     make_date (int (foldl (\<lambda>a c. a * 10 + digit_val c) 0 (take 4 text))) m d
                 | _ \<Rightarrow> None))"

text \<open>
  \<^verbatim>\<open>now - timedelta(days=n)\<close> keeps the time of day and moves the date \<open>n\<close> calendar
  days back; Python raises \<^verbatim>\<open>OverflowError\<close> when that is before 0001-01-01.
  \<^verbatim>\<open>now.replace(...)\<close> overwrites the named fields.
\<close>

definition prev_day :: "'a date_scheme \<Rightarrow> 'a date_scheme" where
  "prev_day d =
     (if 1 < day d then d\<lparr>day := day d - 1\<rparr>
      else if 1 < month d
        then d\<lparr>month := month d - 1, day := days_in_month (year d) (month d - 1)\<rparr>
      else d\<lparr>year := year d - 1, month := 12, day := 31\<rparr>)"

definition minus_days :: "datetime \<Rightarrow> nat \<Rightarrow> datetime option" where
  "minus_days t n = (if toordinal t - int n < 1 then None else Some ((prev_day ^^ n) t))"

definition midnight :: "datetime \<Rightarrow> datetime" where
  "midnight t = t\<lparr>hour := 0, minute := 0, second := 0, microsecond := 0\<rparr>"

definition date_of :: "datetime \<Rightarrow> date" where
  "date_of t = \<lparr>year = year t, month = month t, day = day t\<rparr>"

section \<open>The database and the bot state\<close>

text \<open>
  The two tables of \<^verbatim>\<open>cigarettes.db\<close>. \<^verbatim>\<open>users\<close> has the primary key
  \<^verbatim>\<open>user_id\<close>, so it is a map from user ids to rows; \<^verbatim>\<open>usage\<close> is the list of
  its rows in insertion order, with the \<^verbatim>\<open>AUTOINCREMENT\<close> counter beside it. Every
  helper of the source commits at once, so there is no uncommitted state.
\<close>

record user_row =
  unit_price :: sqlreal
  stock :: int
  dashboard_message_id :: "int option"
  start_smoking_date :: "string option"

record usage_row =
  row_id :: int
  user_id :: int
  timestamp :: string
  quantity :: int
  cost :: sqlreal

record aggregates =
  daily :: "int \<times> pyfloat"
  weekly :: "int \<times> pyfloat"
  monthly :: "int \<times> pyfloat"
  yearly :: "int \<times> pyfloat"

text \<open>
  What the bot sends. The texts are kept as the values they display: the prompts of the
  onboarding flow, and the dashboard with its aggregates, stock, unit price, the start
  date with the theoretical total (when a start date is recorded) and the forecast
  (when it is positive).
\<close>

datatype prompt = AskUnitPrice | PriceSet pyfloat | InvalidNumber | InvalidDate

record dashboard_text =
  shown_aggregates :: aggregates
  shown_stock :: int
  shown_unit_price :: pyfloat
  shown_start :: "(string \<times> pyfloat) option"
  shown_forecast :: "pyfloat option"

datatype out_msg =
  SendPrompt prompt
| SendDashboard dashboard_text
| EditDashboard int dashboard_text
| AnswerCallback

text \<open>
  The state the handlers work on: the database, \<^verbatim>\<open>context.user_data\<close> (one
  dictionary per user, kept by the framework) and the log of the calls to the chat
  transport.
\<close>

record bot_state =
  users :: "int \<rightharpoonup> user_row"
  usage :: "usage_row list"
  usage_seq :: int
  user_data :: "int \<Rightarrow> string \<rightharpoonup> bool"
  outbox :: "out_msg list"

text \<open>
  What a handler reads from outside: the clock, once for each call of
  \<^verbatim>\<open>datetime.now()\<close> and \<^verbatim>\<open>date.today()\<close> it can make, whether Telegram refuses
  the edit of the dashboard message, and the id Telegram gives to a message sent.
  The other transport calls are taken to succeed.
\<close>

record env =
  log_now :: datetime
  aggr_now :: datetime
  forecast_today :: date
  theo_now :: datetime
  theo_today :: date
  edit_fails :: bool
  sent_message_id :: int

datatype py_error = TypeError | IntegrityError | OverflowError

datatype 'a outcome = Returned 'a | Raised py_error

definition ASKING_UNIT_PRICE :: int where "ASKING_UNIT_PRICE = 1"
definition ASKING_START_DATE :: int where "ASKING_START_DATE = 2"
definition END :: int where "END = - 1"

subsection \<open>Database helpers\<close>

definition get_user :: "bot_state \<Rightarrow> int \<Rightarrow> user_row option" where
  "get_user s uid = users s uid"

definition create_user :: "bot_state \<Rightarrow> int \<Rightarrow> pyfloat \<Rightarrow> py_error + bot_state" where
  "create_user s uid price =
     (if users s uid \<noteq> None then Inl IntegrityError
      else Inr (s\<lparr>users := (users s)(uid \<mapsto>
             \<lparr>unit_price = sql_bind_real (Some price), stock = 0,
              dashboard_message_id = None, start_smoking_date = None\<rparr>)\<rparr>))"

definition update_row :: "bot_state \<Rightarrow> int \<Rightarrow> (user_row \<Rightarrow> user_row) \<Rightarrow> bot_state" where
  "update_row s uid f =
     (case users s uid of None \<Rightarrow> s | Some row \<Rightarrow> s\<lparr>users := (users s)(uid \<mapsto> f row)\<rparr>)"

definition update_dashboard_message_id :: "bot_state \<Rightarrow> int \<Rightarrow> int \<Rightarrow> bot_state" where
  "update_dashboard_message_id s uid message_id =
     update_row s uid (\<lambda>row. row\<lparr>dashboard_message_id := Some message_id\<rparr>)"

definition update_user_price :: "bot_state \<Rightarrow> int \<Rightarrow> pyfloat \<Rightarrow> bot_state" where
  "update_user_price s uid new_price =
     update_row s uid (\<lambda>row. row\<lparr>unit_price := sql_bind_real (Some new_price)\<rparr>)"

definition update_user_stock :: "bot_state \<Rightarrow> int \<Rightarrow> int \<Rightarrow> bot_state" where
  "update_user_stock s uid new_stock = update_row s uid (\<lambda>row. row\<lparr>stock := new_stock\<rparr>)"

definition update_user_start_date :: "bot_state \<Rightarrow> int \<Rightarrow> string \<Rightarrow> bot_state" where
  "update_user_start_date s uid start_date_str =
     update_row s uid (\<lambda>row. row\<lparr>start_smoking_date := Some start_date_str\<rparr>)"

definition log_smoke_event :: "datetime \<Rightarrow> bot_state \<Rightarrow> int \<Rightarrow> int \<Rightarrow> pyfloat option \<Rightarrow> bot_state" where
  "log_smoke_event now s uid qty c =
     s\<lparr>usage := usage s @ [\<lparr>row_id = usage_seq s + 1, user_id = uid,
                              timestamp = datetime_isoformat now, quantity = qty,
                              cost = sql_bind_real c\<rparr>],
       usage_seq := usage_seq s + 1\<rparr>"

subsection \<open>Aggregation helpers\<close>

text \<open>
  \<^verbatim>\<open>timestamp BETWEEN ? AND ?\<close> compares the texts byte by byte (the \<^verbatim>\<open>BINARY\<close>
  collation); a proper prefix is smaller.
\<close>

fun text_le :: "string \<Rightarrow> string \<Rightarrow> bool" where
  "text_le [] ys = True"
| "text_le (x # xs) [] = False"
| "text_le (x # xs) (y # ys) = ((of_char x :: nat) < of_char y \<or> (x = y \<and> text_le xs ys))"

text \<open>
  \<^verbatim>\<open>SUM\<close> skips \<^verbatim>\<open>NULL\<close>s and is \<^verbatim>\<open>NULL\<close> when nothing is left; a NaN result is
  \<^verbatim>\<open>NULL\<close> too. \<^verbatim>\<open>IFNULL(x, 0)\<close> followed by \<^verbatim>\<open>float\<close> turns \<^verbatim>\<open>NULL\<close> into 0.0.
\<close>

definition sql_sum_real :: "sqlreal list \<Rightarrow> sqlreal" where
  "sql_sum_real xs =
     (case map the (filter (\<lambda>x. x \<noteq> None) xs) of
        [] \<Rightarrow> None
      | y # ys \<Rightarrow> sql_bind_real (Some (foldl float_add y ys)))"

definition ifnull_zero :: "sqlreal \<Rightarrow> pyfloat" where
  "ifnull_zero x = (case x of None \<Rightarrow> Fin 0 | Some v \<Rightarrow> v)"

definition in_window :: "int \<Rightarrow> string \<Rightarrow> string \<Rightarrow> usage_row \<Rightarrow> bool" where
  "in_window uid start_iso end_iso r =
     (user_id r = uid \<and> text_le start_iso (timestamp r) \<and> text_le (timestamp r) end_iso)"

definition aggregate_usage :: "bot_state \<Rightarrow> int \<Rightarrow> datetime \<Rightarrow> datetime \<Rightarrow> int \<times> pyfloat" where
  "aggregate_usage s uid start_dt end_dt =
     (let start_iso = datetime_isoformat start_dt;
          end_iso = datetime_isoformat end_dt;
          rows = filter (in_window uid start_iso end_iso) (usage s)
      in (sum_list (map quantity rows), ifnull_zero (sql_sum_real (map cost rows))))"

definition get_aggregates :: "bot_state \<Rightarrow> datetime \<Rightarrow> int \<Rightarrow> py_error + aggregates" where
  "get_aggregates s now uid =
     (let daily_start = midnight now in
      case minus_days now 7 of
        None \<Rightarrow> Inl OverflowError
      | Some weekly_start \<Rightarrow>
          let monthly_start = (midnight now)\<lparr>day := 1\<rparr>;
              yearly_start = (midnight now)\<lparr>month := 1, day := 1\<rparr>
          in Inr \<lparr>daily = aggregate_usage s uid daily_start now,
                  weekly = aggregate_usage s uid weekly_start now,
                  monthly = aggregate_usage s uid monthly_start now,
                  yearly = aggregate_usage s uid yearly_start now\<rparr>)"

definition calculate_forecast :: "date \<Rightarrow> pyfloat \<Rightarrow> pyfloat" where
  "calculate_forecast today daily_cost =
     (if float_le_zero daily_cost then Fin 0
      else
        let end_of_year = \<lparr>year = year today, month = 12, day = 31\<rparr>;
            remaining_days = days_between end_of_year today
        in float_mul_int daily_cost remaining_days)"

definition theoretical_spent_since_start ::
  "bot_state \<Rightarrow> datetime \<Rightarrow> date \<Rightarrow> int \<Rightarrow> string option \<Rightarrow> py_error + pyfloat" where
  "theoretical_spent_since_start s now today uid start_date_str =
     (case start_date_str of
        None \<Rightarrow> Inr (Fin 0)
      | Some text \<Rightarrow>
          if text = [] then Inr (Fin 0)
          else
            (case strptime_ymd text of
               None \<Rightarrow> Inr (Fin 0)
             | Some start_dt \<Rightarrow>
                 (case get_aggregates s now uid of
                    Inl err \<Rightarrow> Inl err
                  | Inr aggr \<Rightarrow>
                      let daily_cost = snd (daily aggr) in
                      if date_less today start_dt then Inr (Fin 0)
                      else Inr (float_mul_int daily_cost (days_between today start_dt + 1)))))"

section \<open>The handlers\<close>

definition send :: "bot_state \<Rightarrow> out_msg \<Rightarrow> bot_state" where
  "send s m = s\<lparr>outbox := outbox s @ [m]\<rparr>"

definition key_new_price :: "int \<Rightarrow> string" where
  "key_new_price uid = ''awaiting_new_price_'' @ str_int uid"

definition key_smoked_more :: "int \<Rightarrow> string" where
  "key_smoked_more uid = ''awaiting_smoked_more_'' @ str_int uid"

definition flag_set :: "bot_state \<Rightarrow> int \<Rightarrow> string \<Rightarrow> bool" where
  "flag_set s uid k = (user_data s uid k = Some True)"

definition set_flag :: "bot_state \<Rightarrow> int \<Rightarrow> string \<Rightarrow> bot_state" where
  "set_flag s uid k = s\<lparr>user_data := (user_data s)(uid := (user_data s uid)(k \<mapsto> True))\<rparr>"

definition pop_flag :: "bot_state \<Rightarrow> int \<Rightarrow> string \<Rightarrow> bot_state" where
  "pop_flag s uid k = s\<lparr>user_data := (user_data s)(uid := (user_data s uid)(k := None))\<rparr>"

subsection \<open>Dashboard\<close>

definition dashboard_text_of ::
  "aggregates \<Rightarrow> user_row \<Rightarrow> pyfloat \<Rightarrow> pyfloat \<Rightarrow> pyfloat \<Rightarrow> dashboard_text" where
  "dashboard_text_of aggr row price theoretical_total forecast_val =
     \<lparr>shown_aggregates = aggr, shown_stock = stock row, shown_unit_price = price,
      shown_start =
        (case start_smoking_date row of
           None \<Rightarrow> None
         | Some d \<Rightarrow> if d = [] then None else Some (d, theoretical_total)),
      shown_forecast = (if float_gt_zero forecast_val then Some forecast_val else None)\<rparr>"

text \<open>The last part of \<^verbatim>\<open>update_dashboard\<close>: a new message, or an edit of the old
  one and, when the edit fails, a new message; the id of a new message is stored.\<close>

definition deliver_dashboard ::
  "env \<Rightarrow> int \<Rightarrow> bool \<Rightarrow> int option \<Rightarrow> dashboard_text \<Rightarrow> bot_state \<Rightarrow> bot_state" where
  "deliver_dashboard e uid is_new_message dashboard_msg_id text s =
     (case dashboard_msg_id of
        None \<Rightarrow> update_dashboard_message_id (send s (SendDashboard text)) uid (sent_message_id e)
      | Some msg_id \<Rightarrow>
          if is_new_message
            then update_dashboard_message_id (send s (SendDashboard text)) uid (sent_message_id e)
          else if edit_fails e
            then update_dashboard_message_id
                   (send (send s (EditDashboard msg_id text)) (SendDashboard text))
                   uid (sent_message_id e)
          else send s (EditDashboard msg_id text))"

definition update_dashboard :: "env \<Rightarrow> int \<Rightarrow> bool \<Rightarrow> bot_state \<Rightarrow> py_error + bot_state" where
  "update_dashboard e uid is_new_message s =
     (case get_user s uid of
        None \<Rightarrow> Inr s
      | Some row \<Rightarrow>
          (case get_aggregates s (aggr_now e) uid of
             Inl err \<Rightarrow> Inl err
           | Inr aggr \<Rightarrow>
               let forecast_val = calculate_forecast (forecast_today e) (snd (daily aggr)) in
               (case theoretical_spent_since_start s (theo_now e) (theo_today e) uid
                       (start_smoking_date row) of
                  Inl err \<Rightarrow> Inl err
                | Inr theoretical_total \<Rightarrow>
                    (case unit_price row of
                       None \<Rightarrow> Inl TypeError
                     | Some price \<Rightarrow>
                         Inr (deliver_dashboard e uid is_new_message (dashboard_message_id row)
                                (dashboard_text_of aggr row price theoretical_total forecast_val)
                                s)))))"

text \<open>A handler that ends with the dashboard: an exception raised there leaves what
  was written before, and the handler does not return.\<close>

definition then_dashboard :: "env \<Rightarrow> int \<Rightarrow> bool \<Rightarrow> 'a \<Rightarrow> bot_state \<Rightarrow> bot_state \<times> 'a outcome" where
  "then_dashboard e uid is_new_message result s =
     (case update_dashboard e uid is_new_message s of
        Inl err \<Rightarrow> (s, Raised err)
      | Inr s' \<Rightarrow> (s', Returned result))"

subsection \<open>Commands and the onboarding conversation\<close>

definition start :: "env \<Rightarrow> int \<Rightarrow> bot_state \<Rightarrow> bot_state \<times> int outcome" where
  "start e uid s =
     (case get_user s uid of
        None \<Rightarrow> (send s (SendPrompt AskUnitPrice), Returned ASKING_UNIT_PRICE)
      | Some user_data_row \<Rightarrow> then_dashboard e uid True END s)"

definition ask_unit_price :: "env \<Rightarrow> int \<Rightarrow> string \<Rightarrow> bot_state \<Rightarrow> bot_state \<times> int outcome" where
  "ask_unit_price e uid message_text s =
     (let text = strip message_text in
      case py_float text of
        None \<Rightarrow> (send s (SendPrompt InvalidNumber), Returned ASKING_UNIT_PRICE)
      | Some price \<Rightarrow>
          if float_le_zero price
            then (send s (SendPrompt InvalidNumber), Returned ASKING_UNIT_PRICE)
          else
            (case create_user s uid price of
               Inl err \<Rightarrow> (s, Raised err)
             | Inr s1 \<Rightarrow> (send s1 (SendPrompt (PriceSet price)), Returned ASKING_START_DATE)))"

definition ask_start_date :: "env \<Rightarrow> int \<Rightarrow> string \<Rightarrow> bot_state \<Rightarrow> bot_state \<times> int outcome" where
  "ask_start_date e uid message_text s =
     (let text = lower (strip message_text) in
      if text = ''skip'' then then_dashboard e uid True END s
      else
        (case strptime_ymd text of
           None \<Rightarrow> (send s (SendPrompt InvalidDate), Returned ASKING_START_DATE)
         | Some dt \<Rightarrow>
             let iso_str = date_isoformat dt
             in then_dashboard e uid True END (update_user_start_date s uid iso_str)))"

definition cancel :: "int \<Rightarrow> bot_state \<Rightarrow> bot_state \<times> int outcome" where
  "cancel uid s =
     (pop_flag (pop_flag s uid (key_new_price uid)) uid (key_smoked_more uid), Returned END)"

subsection \<open>Inline buttons and free text\<close>

definition menu_callback :: "env \<Rightarrow> int \<Rightarrow> string \<Rightarrow> bot_state \<Rightarrow> bot_state \<times> unit outcome" where
  "menu_callback e uid choice s0 =
     (let s = send s0 AnswerCallback in
      case get_user s uid of
        None \<Rightarrow> (s, Returned ())
      | Some user_row \<Rightarrow>
          if choice = ''ADD_PACK''
            then then_dashboard e uid False () (update_user_stock s uid (stock user_row + 20))
          else if choice = ''ADD_CIG''
            then then_dashboard e uid False () (update_user_stock s uid (stock user_row + 1))
          else if choice = ''SMOKE_ONE''
            then (if 0 < stock user_row
                  then then_dashboard e uid False ()
                         (log_smoke_event (log_now e)
                            (update_user_stock s uid (stock user_row - 1)) uid 1
                            (unit_price user_row))
                  else then_dashboard e uid False () s)
          else if choice = ''SMOKE_MORE''
            then (set_flag s uid (key_smoked_more uid), Returned ())
          else if choice = ''CHANGE_PRICE''
            then (set_flag s uid (key_new_price uid), Returned ())
          else then_dashboard e uid False () s)"

definition handle_text_message :: "env \<Rightarrow> int \<Rightarrow> string \<Rightarrow> bot_state \<Rightarrow> bot_state \<times> unit outcome" where
  "handle_text_message e uid message_text s =
     (let text = lower (strip message_text) in
      if flag_set s uid (key_new_price uid) then
        let s1 = (case py_float text of
                    None \<Rightarrow> s
                  | Some new_price \<Rightarrow>
                      if float_gt_zero new_price then update_user_price s uid new_price else s)
        in then_dashboard e uid False () (pop_flag s1 uid (key_new_price uid))
      else if flag_set s uid (key_smoked_more uid) then
        (case get_user s uid of
           None \<Rightarrow> (s, Returned ())
         | Some user_row \<Rightarrow>
             (case py_int text of
                None \<Rightarrow> then_dashboard e uid False () (pop_flag s uid (key_smoked_more uid))
              | Some qty \<Rightarrow>
                  if 0 < qty \<and> qty \<le> stock user_row then
                    let s1 = update_user_stock s uid (stock user_row - qty) in
                    (case unit_price user_row of
                       None \<Rightarrow> (s1, Raised TypeError)
                     | Some price \<Rightarrow>
                         let total_cost = float_mul_int price qty;
                             s2 = log_smoke_event (log_now e) s1 uid qty (Some total_cost)
                         in then_dashboard e uid False () (pop_flag s2 uid (key_smoked_more uid)))
                  else then_dashboard e uid False () (pop_flag s uid (key_smoked_more uid))))
      else (s, Returned ()))"

section \<open>The application: routing of updates\<close>

text \<open>
  \<^verbatim>\<open>main()\<close> registers, in this order, the \<^verbatim>\<open>ConversationHandler\<close> of the
  onboarding flow (entry point \<^verbatim>\<open>/start\<close>, re-entry allowed, the two text states,
  fallback \<^verbatim>\<open>/cancel\<close>), the \<^verbatim>\<open>CallbackQueryHandler\<close> and the handler of plain
  text. The framework gives an update to the first handler that accepts it and keeps
  one conversation state per user (here: per private chat); a handler that raises
  leaves the conversation state as it was.
\<close>

datatype update = Command string | TextMessage string | CallbackQuery string

record app_state =
  app_bot :: bot_state
  conversations :: "int \<rightharpoonup> int"

fun conversation_result :: "app_state \<Rightarrow> int \<Rightarrow> bot_state \<times> int outcome \<Rightarrow> app_state" where
  "conversation_result a uid (s, Returned new_state) =
     \<lparr>app_bot = s,
      conversations = (if new_state = END then (conversations a)(uid := None)
                       else (conversations a)(uid \<mapsto> new_state))\<rparr>"
| "conversation_result a uid (s, Raised err) = a\<lparr>app_bot := s\<rparr>"

definition dispatch :: "env \<Rightarrow> int \<Rightarrow> update \<Rightarrow> app_state \<Rightarrow> app_state" where
  "dispatch e uid u a =
     (case u of
        Command c \<Rightarrow>
          if c = ''start'' then conversation_result a uid (start e uid (app_bot a))
          else if c = ''cancel'' \<and> conversations a uid \<noteq> None
            then conversation_result a uid (cancel uid (app_bot a))
          else a
      | TextMessage t \<Rightarrow>
          if conversations a uid = Some ASKING_UNIT_PRICE
            then conversation_result a uid (ask_unit_price e uid t (app_bot a))
          else if conversations a uid = Some ASKING_START_DATE
            then conversation_result a uid (ask_start_date e uid t (app_bot a))
          else a\<lparr>app_bot := fst (handle_text_message e uid t (app_bot a))\<rparr>
      | CallbackQuery d \<Rightarrow> a\<lparr>app_bot := fst (menu_callback e uid d (app_bot a))\<rparr>)"

definition initial_state :: app_state where
  "initial_state =
     \<lparr>app_bot = \<lparr>users = Map.empty, usage = [], usage_seq = 0,
             user_data = (\<lambda>uid. Map.empty), outbox = []\<rparr>,
      conversations = Map.empty\<rparr>"

text \<open>A run handles a list of updates, each with its user and its environment.\<close>

fun run :: "(env \<times> int \<times> update) list \<Rightarrow> app_state \<Rightarrow> app_state" where
  "run [] a = a"
| "run ((e, uid, u) # rest) a = run rest (dispatch e uid u a)"

inductive reachable :: "app_state \<Rightarrow> bool" where
  reachable_initial: "reachable initial_state"
| reachable_dispatch: "reachable a \<Longrightarrow> reachable (dispatch e uid u a)"

section \<open>Notions used in the properties\<close>

text \<open>
  The part of a profile that the chat user owns: unit price, stock and start date. The
  fourth column, the reference to the dashboard message, is bookkeeping of the
  renderer.
\<close>

definition profile_data :: "user_row \<Rightarrow> sqlreal \<times> int \<times> string option" where
  "profile_data row = (unit_price row, stock row, start_smoking_date row)"

definition profiles :: "bot_state \<Rightarrow> int \<rightharpoonup> sqlreal \<times> int \<times> string option" where
  "profiles s = (\<lambda>uid. map_option profile_data (users s uid))"

definition stocks :: "bot_state \<Rightarrow> int \<rightharpoonup> int" where
  "stocks s = (\<lambda>uid. map_option stock (users s uid))"

definition stock_nonneg :: "bot_state \<Rightarrow> bool" where
  "stock_nonneg s = (\<forall>uid row. users s uid = Some row \<longrightarrow> 0 \<le> stock row)"

text \<open>Concrete inputs: a clock reading, an environment built from it, a profile with
  five cigarettes in stock, and states of the user 7 with that profile.\<close>

definition example_now :: datetime where
  "example_now = \<lparr>year = 2024, month = 3, day = 5, hour = 10, minute = 30, second = 0,
                   microsecond = 0\<rparr>"

definition example_env :: env where
  "example_env = \<lparr>log_now = example_now, aggr_now = example_now,
                   forecast_today = date_of example_now, theo_now = example_now,
                   theo_today = date_of example_now, edit_fails = False,
                   sent_message_id = 100\<rparr>"

definition example_row :: user_row where
  "example_row = \<lparr>unit_price = Some (Fin (1 / 2)), stock = 5, dashboard_message_id = Some 99,
                   start_smoking_date = None\<rparr>"

definition example_state :: "user_row \<Rightarrow> (string \<rightharpoonup> bool) \<Rightarrow> bot_state" where
  "example_state row flags =
     \<lparr>users = [7 \<mapsto> row], usage = [], usage_seq = 0,
      user_data = (\<lambda>uid. Map.empty)(7 := flags), outbox = []\<rparr>"

text \<open>
  How the stock of one user can change in one step: not at all, from absent to 0 (the
  profile is created), up by 20 or by 1, or down by a quantity that is positive and not
  larger than the stock.
\<close>

definition stock_change :: "int option \<Rightarrow> int option \<Rightarrow> bool" where
  "stock_change old new =
     (new = old \<or> (old = None \<and> new = Some 0)
      \<or> (\<exists>n. old = Some n \<and> (new = Some (n + 20) \<or> new = Some (n + 1)
                   \<or> (\<exists>q. 0 < q \<and> q \<le> n \<and> new = Some (n - q)))))"

definition stock_step :: "bot_state \<Rightarrow> bot_state \<Rightarrow> bool" where
  "stock_step s s' = (\<forall>uid. stock_change (stocks s uid) (stocks s' uid))"

text \<open>The start dates stored, and what is stored being the ISO form of a date.\<close>

definition start_dates :: "bot_state \<Rightarrow> int \<rightharpoonup> string option" where
  "start_dates s = (\<lambda>uid. map_option start_smoking_date (users s uid))"

definition is_iso_date :: "string \<Rightarrow> bool" where
  "is_iso_date d = (\<exists>dt::date. valid_date dt \<and> d = date_isoformat dt)"

definition start_dates_valid :: "bot_state \<Rightarrow> bool" where
  "start_dates_valid s = (\<forall>uid d. start_dates s uid = Some (Some d) \<longrightarrow> is_iso_date d)"

definition future_date_run :: "(env \<times> int \<times> update) list" where
  "future_date_run =
     [(example_env, 7, Command ''start''), (example_env, 7, TextMessage ''1.5''),
      (example_env, 7, TextMessage ''2099-01-01'')]"

text \<open>The day after a date in the calendar; counting calendar days is counting such
  steps.\<close>

definition next_day :: "'a date_scheme \<Rightarrow> 'a date_scheme" where
  "next_day d =
     (if day d < days_in_month (year d) (month d) then d\<lparr>day := day d + 1\<rparr>
      else if month d < 12 then d\<lparr>month := month d + 1, day := 1\<rparr>
      else d\<lparr>year := year d + 1, month := 1, day := 1\<rparr>)"

definition end_of_year :: "date \<Rightarrow> date" where
  "end_of_year d = \<lparr>year = year d, month = 12, day = 31\<rparr>"

text \<open>A usage table for the examples: user 7 has smoked at the very start of the day of
  \<open>example_now\<close>, earlier in the week, earlier in the year and in the year before;
  user 8 has one event today.\<close>

definition example_usage :: "usage_row list" where
  "example_usage =
     [\<lparr>row_id = 1, user_id = 7, timestamp = ''2023-12-31T23:59:59.999999'', quantity = 1,
       cost = Some (Fin (1 / 2))\<rparr>,
      \<lparr>row_id = 2, user_id = 7, timestamp = ''2024-02-20T08:00:00'', quantity = 2,
       cost = Some (Fin 1)\<rparr>,
      \<lparr>row_id = 3, user_id = 7, timestamp = ''2024-03-01T00:00:00'', quantity = 4,
       cost = Some (Fin 2)\<rparr>,
      \<lparr>row_id = 4, user_id = 8, timestamp = ''2024-03-05T09:00:00'', quantity = 8,
       cost = Some (Fin 4)\<rparr>,
      \<lparr>row_id = 5, user_id = 7, timestamp = ''2024-03-05T00:00:00'', quantity = 3,
       cost = Some (Fin (3 / 2))\<rparr>]"

definition example_usage_state :: bot_state where
  "example_usage_state =
     \<lparr>users = [7 \<mapsto> example_row], usage = example_usage, usage_seq = 5,
      user_data = (\<lambda>uid. Map.empty), outbox = []\<rparr>"

text \<open>
  For the comparison of timestamps: the decimal digits of a number in a fixed width, and
  the strict order of two texts of the same length.
\<close>

fun fixed_digits :: "nat \<Rightarrow> nat \<Rightarrow> string" where
  "fixed_digits 0 n = []"
| "fixed_digits (Suc w) n = fixed_digits w (n div 10) @ [digit_char n]"

fun text_lt :: "string \<Rightarrow> string \<Rightarrow> bool" where
  "text_lt (x # xs) (y # ys) = ((of_char x :: nat) < of_char y \<or> (x = y \<and> text_lt xs ys))"
| "text_lt xs ys = False"

text \<open>
  The rows of a window, read with date-times instead of texts: \<open>time_of\<close> gives the
  instant a row was recorded at. The totals are the two sums of the query.
\<close>

definition window_rows ::
  "(usage_row \<Rightarrow> datetime) \<Rightarrow> int \<Rightarrow> datetime \<Rightarrow> datetime \<Rightarrow> usage_row list \<Rightarrow> usage_row list" where
  "window_rows time_of uid start_dt now rows =
     filter (\<lambda>r. user_id r = uid \<and> datetime_le start_dt (time_of r)
                 \<and> datetime_le (time_of r) now)
       rows"

definition totals :: "usage_row list \<Rightarrow> int \<times> pyfloat" where
  "totals rows = (sum_list (map quantity rows), ifnull_zero (sql_sum_real (map cost rows)))"

definition stamped :: "(usage_row \<Rightarrow> datetime) \<Rightarrow> usage_row list \<Rightarrow> bool" where
  "stamped time_of rows =
     (\<forall>r \<in> set rows. valid_datetime (time_of r) \<and> timestamp r = datetime_isoformat (time_of r))"

definition same_time_of_day :: "datetime \<Rightarrow> datetime \<Rightarrow> bool" where
  "same_time_of_day a b = (hour a = hour b \<and> minute a = minute b \<and> second a = second b
                           \<and> microsecond a = microsecond b)"

definition example_time_of :: "usage_row \<Rightarrow> datetime" where
  "example_time_of r =
     (if row_id r = 1
        then \<lparr>year = 2023, month = 12, day = 31, hour = 23, minute = 59, second = 59,
              microsecond = 999999\<rparr>
      else if row_id r = 2
        then \<lparr>year = 2024, month = 2, day = 20, hour = 8, minute = 0, second = 0, microsecond = 0\<rparr>
      else if row_id r = 3
        then \<lparr>year = 2024, month = 3, day = 1, hour = 0, minute = 0, second = 0, microsecond = 0\<rparr>
      else if row_id r = 4
        then \<lparr>year = 2024, month = 3, day = 5, hour = 9, minute = 0, second = 0, microsecond = 0\<rparr>
      else \<lparr>year = 2024, month = 3, day = 5, hour = 0, minute = 0, second = 0, microsecond = 0\<rparr>)"

section \<open>Properties\<close>

subsection \<open>What each helper changes\<close>

lemma send_simps [simp]:
  "users (send s m) = users s" "usage (send s m) = usage s" "usage_seq (send s m) = usage_seq s"
  "user_data (send s m) = user_data s" "outbox (send s m) = outbox s @ [m]"
  by (simp_all add: send_def)

lemma set_flag_simps [simp]:
  "users (set_flag s uid k) = users s" "usage (set_flag s uid k) = usage s"
  "usage_seq (set_flag s uid k) = usage_seq s" "outbox (set_flag s uid k) = outbox s"
  "user_data (set_flag s uid k) = (user_data s)(uid := (user_data s uid)(k \<mapsto> True))"
  by (simp_all add: set_flag_def)

lemma pop_flag_simps [simp]:
  "users (pop_flag s uid k) = users s" "usage (pop_flag s uid k) = usage s"
  "usage_seq (pop_flag s uid k) = usage_seq s" "outbox (pop_flag s uid k) = outbox s"
  "user_data (pop_flag s uid k) = (user_data s)(uid := (user_data s uid)(k := None))"
  by (simp_all add: pop_flag_def)

lemma update_row_simps [simp]:
  "usage (update_row s uid f) = usage s" "usage_seq (update_row s uid f) = usage_seq s"
  "user_data (update_row s uid f) = user_data s" "outbox (update_row s uid f) = outbox s"
  by (simp_all add: update_row_def split: option.splits)

lemma users_update_row:
  "users (update_row s uid f) = (case users s uid of None \<Rightarrow> users s | Some row \<Rightarrow> (users s)(uid \<mapsto> f row))"
  by (simp add: update_row_def split: option.splits)

lemma log_smoke_event_simps [simp]:
  "users (log_smoke_event now s uid q c) = users s"
  "user_data (log_smoke_event now s uid q c) = user_data s"
  "outbox (log_smoke_event now s uid q c) = outbox s"
  "usage_seq (log_smoke_event now s uid q c) = usage_seq s + 1"
  "usage (log_smoke_event now s uid q c) =
     usage s @ [\<lparr>row_id = usage_seq s + 1, user_id = uid, timestamp = datetime_isoformat now,
                 quantity = q, cost = sql_bind_real c\<rparr>]"
  by (simp_all add: log_smoke_event_def)

lemma profiles_cong: "users s' = users s \<Longrightarrow> profiles s' = profiles s"
  by (simp add: profiles_def)

lemma profiles_update_row:
  "(\<And>row. profile_data (f row) = profile_data row) \<Longrightarrow> profiles (update_row s uid f) = profiles s"
  by (auto simp: profiles_def users_update_row split: option.splits)

lemma update_dashboard_message_id_simps [simp]:
  "profiles (update_dashboard_message_id s uid m) = profiles s"
  "usage (update_dashboard_message_id s uid m) = usage s"
  "usage_seq (update_dashboard_message_id s uid m) = usage_seq s"
  "user_data (update_dashboard_message_id s uid m) = user_data s"
  "outbox (update_dashboard_message_id s uid m) = outbox s"
  by (simp_all add: update_dashboard_message_id_def profiles_update_row profile_data_def)

lemma profiles_simps [simp]:
  "profiles (send s m) = profiles s"
  "profiles (set_flag s uid k) = profiles s"
  "profiles (pop_flag s uid k) = profiles s"
  "profiles (log_smoke_event now s uid q c) = profiles s"
  by (simp_all add: profiles_def)

lemma deliver_dashboard_simps [simp]:
  "profiles (deliver_dashboard e uid n d t s) = profiles s"
  "usage (deliver_dashboard e uid n d t s) = usage s"
  "usage_seq (deliver_dashboard e uid n d t s) = usage_seq s"
  "user_data (deliver_dashboard e uid n d t s) = user_data s"
  by (simp_all add: deliver_dashboard_def split: option.splits)

lemma update_dashboard_frame:
  assumes "update_dashboard e uid n s = Inr s'"
  shows "profiles s' = profiles s" "usage s' = usage s" "usage_seq s' = usage_seq s"
        "user_data s' = user_data s"
  using assms
  by (auto simp: update_dashboard_def Let_def split: option.splits sum.splits)

lemma update_dashboard_no_row:
  "users s uid = None \<Longrightarrow> update_dashboard e uid n s = Inr s"
  by (simp add: update_dashboard_def get_user_def)

lemma then_dashboard_frame [simp]:
  "profiles (fst (then_dashboard e uid n r s)) = profiles s"
  "usage (fst (then_dashboard e uid n r s)) = usage s"
  "usage_seq (fst (then_dashboard e uid n r s)) = usage_seq s"
  "user_data (fst (then_dashboard e uid n r s)) = user_data s"
  by (auto simp: then_dashboard_def update_dashboard_frame split: sum.splits)

lemma stocks_profiles: "profiles s' = profiles s \<Longrightarrow> stocks s' = stocks s"
proof -
  assume h: "profiles s' = profiles s"
  have "stocks t = (\<lambda>uid. map_option (\<lambda>p. fst (snd p)) (profiles t uid))" for t
    by (simp add: stocks_def profiles_def profile_data_def option.map_comp comp_def)
  with h show ?thesis by simp
qed

lemma stocks_simps [simp]:
  "stocks (send s m) = stocks s"
  "stocks (set_flag s uid k) = stocks s"
  "stocks (pop_flag s uid k) = stocks s"
  "stocks (log_smoke_event now s uid q c) = stocks s"
  by (simp_all add: stocks_def)

lemma stocks_then_dashboard [simp]:
  "stocks (fst (then_dashboard e uid n r s)) = stocks s"
  by (rule stocks_profiles) simp

lemma profiles_update_user_stock:
  "users s uid = Some row \<Longrightarrow>
   profiles (update_user_stock s uid n) =
     (profiles s)(uid \<mapsto> (unit_price row, n, start_smoking_date row))"
  by (auto simp: profiles_def update_user_stock_def users_update_row profile_data_def)

lemma stocks_update_user_stock:
  "users s uid = Some row \<Longrightarrow> stocks (update_user_stock s uid n) = (stocks s)(uid \<mapsto> n)"
  by (auto simp: stocks_def update_user_stock_def users_update_row)

lemma stocks_update_user_price [simp]:
  "stocks (update_user_price s uid p) = stocks s"
  by (auto simp: stocks_def update_user_price_def users_update_row split: option.splits)

lemma stocks_update_user_start_date [simp]:
  "stocks (update_user_start_date s uid d) = stocks s"
  by (auto simp: stocks_def update_user_start_date_def users_update_row split: option.splits)

lemma update_user_simps [simp]:
  "usage (update_user_stock s uid n) = usage s" "usage_seq (update_user_stock s uid n) = usage_seq s"
  "user_data (update_user_stock s uid n) = user_data s" "outbox (update_user_stock s uid n) = outbox s"
  "usage (update_user_price s uid p) = usage s" "usage_seq (update_user_price s uid p) = usage_seq s"
  "user_data (update_user_price s uid p) = user_data s" "outbox (update_user_price s uid p) = outbox s"
  "usage (update_user_start_date s uid d) = usage s"
  "usage_seq (update_user_start_date s uid d) = usage_seq s"
  "user_data (update_user_start_date s uid d) = user_data s"
  "outbox (update_user_start_date s uid d) = outbox s"
  by (simp_all add: update_user_stock_def update_user_price_def update_user_start_date_def)

lemma conv_states_distinct [simp]:
  "ASKING_UNIT_PRICE \<noteq> END" "ASKING_START_DATE \<noteq> END"
  "ASKING_UNIT_PRICE \<noteq> ASKING_START_DATE" "ASKING_START_DATE \<noteq> ASKING_UNIT_PRICE"
  by (simp_all add: ASKING_UNIT_PRICE_def ASKING_START_DATE_def END_def)

lemma float_gt_zero_bind:
  "float_gt_zero p \<Longrightarrow> \<not> float_le_zero p \<and> sql_bind_real (Some p) = Some p"
  by (cases p) auto

lemma flag_set_pop [simp]:
  "flag_set (pop_flag s uid k) uid k' = (k' \<noteq> k \<and> flag_set s uid k')"
  by (simp add: flag_set_def)

lemma flag_set_frame:
  "user_data s' = user_data s \<Longrightarrow> flag_set s' uid k = flag_set s uid k"
  by (simp add: flag_set_def)

lemma flag_set_then_dashboard [simp]:
  "flag_set (fst (then_dashboard e uid n r s)) uid' k = flag_set s uid' k"
  by (simp add: flag_set_def)

lemma keys_distinct [simp]:
  "key_new_price uid \<noteq> key_smoked_more uid'" "key_smoked_more uid' \<noteq> key_new_price uid"
  by (simp_all add: key_new_price_def key_smoked_more_def)

lemma price_reply_frame:
  assumes "flag_set s uid (key_new_price uid)"
  shows "stocks (fst (handle_text_message e uid text s)) = stocks s"
    and "usage (fst (handle_text_message e uid text s)) = usage s"
    and "usage_seq (fst (handle_text_message e uid text s)) = usage_seq s"
  using assms by (simp_all add: handle_text_message_def Let_def split: option.splits)

lemma rejected_quantity_frame:
  assumes "\<not> flag_set s uid (key_new_price uid)"
    and "py_int (lower (strip text)) = None
         \<or> (\<exists>qty. py_int (lower (strip text)) = Some qty
               \<and> (qty \<le> 0 \<or> (\<forall>row. users s uid = Some row \<longrightarrow> stock row < qty)))"
  shows "profiles (fst (handle_text_message e uid text s)) = profiles s"
    and "usage (fst (handle_text_message e uid text s)) = usage s"
    and "usage_seq (fst (handle_text_message e uid text s)) = usage_seq s"
  using assms
  by (auto simp: handle_text_message_def Let_def get_user_def split: option.splits)

lemma smoke_one_empty_frame:
  assumes "users s uid = Some row" "stock row = 0"
  shows "profiles (fst (menu_callback e uid ''SMOKE_ONE'' s)) = profiles s"
    and "usage (fst (menu_callback e uid ''SMOKE_ONE'' s)) = usage s"
    and "usage_seq (fst (menu_callback e uid ''SMOKE_ONE'' s)) = usage_seq s"
  using assms by (simp_all add: menu_callback_def Let_def get_user_def)

subsection \<open>Examples evaluated\<close>

lemma example_flags:
  "flag_set (example_state row [k \<mapsto> True]) 7 k"
  "k' \<noteq> k \<Longrightarrow> \<not> flag_set (example_state row [k \<mapsto> True]) 7 k'"
  "flag_set (example_state row [k \<mapsto> True, k' \<mapsto> True]) 7 k"
  "flag_set (example_state row [k \<mapsto> True, k' \<mapsto> True]) 7 k'"
  by (simp_all add: flag_set_def example_state_def)

lemma example_state_simps [simp]:
  "users (example_state row flags) 7 = Some row"
  "usage (example_state row flags) = []"
  "usage_seq (example_state row flags) = 0"
  by (simp_all add: example_state_def)

lemma py_int_examples:
  "py_int (lower (strip ''3'')) = Some 3" "py_int (lower (strip ''9'')) = Some 9"
  "py_int (lower (strip ''abc'')) = None"
  by code_simp+

lemma py_float_examples:
  "py_float (strip ''1.5'') = Some (Fin (3 / 2))" "py_float (strip ''nan'') = Some NaN"
  "py_float (strip ''abc'') = None" "py_float (strip ''-2'') = Some (Fin (- 2))"
  by code_simp+

subsection \<open>Buttons pressed without a profile\<close>

text \<open>
  Claim C9. A button action of a user who has no row in \<^verbatim>\<open>users\<close> changes nothing:
  \<^verbatim>\<open>menu_callback\<close> acknowledges the callback query and returns. The database,
  the pending flags and the conversation states stay as they are, and the
  acknowledgement is the only call to the transport (no dashboard is sent or edited),
  whatever the button is.
\<close>

theorem button_without_profile:
  assumes "get_user (app_bot a) uid = None"
  shows "menu_callback e uid choice (app_bot a) =
           ((app_bot a)\<lparr>outbox := outbox (app_bot a) @ [AnswerCallback]\<rparr>, Returned ())
         \<and> dispatch e uid (CallbackQuery choice) a =
           a\<lparr>app_bot := (app_bot a)\<lparr>outbox := outbox (app_bot a) @ [AnswerCallback]\<rparr>\<rparr>"
proof -
  have "menu_callback e uid choice (app_bot a) = (send (app_bot a) AnswerCallback, Returned ())"
    using assms by (simp add: menu_callback_def get_user_def)
  then show ?thesis
    by (simp add: dispatch_def send_def)
qed

theorem button_without_profile_witness:
  "menu_callback example_env 7 ''SMOKE_ONE'' (app_bot initial_state) =
     ((app_bot initial_state)\<lparr>outbox := [AnswerCallback]\<rparr>, Returned ())
   \<and> dispatch example_env 7 (CallbackQuery ''SMOKE_ONE'') initial_state =
     initial_state\<lparr>app_bot := (app_bot initial_state)\<lparr>outbox := [AnswerCallback]\<rparr>\<rparr>"
proof -
  have h: "get_user (app_bot initial_state) 7 = None"
    by (simp add: get_user_def initial_state_def)
  have o: "outbox (app_bot initial_state) = []"
    by (simp add: initial_state_def)
  show ?thesis
    using button_without_profile [OF h, of example_env "''SMOKE_ONE''"] o by simp
qed

subsection \<open>The cancel command\<close>

lemma cancel_eq:
  "cancel uid s =
     (s\<lparr>user_data := (user_data s)(uid := (user_data s uid)
                          (key_new_price uid := None, key_smoked_more uid := None))\<rparr>, Returned END)"
  by (simp add: cancel_def pop_flag_def)

lemma ask_unit_price_valid:
  assumes "users s uid = None" "py_float (strip text) = Some price" "float_gt_zero price"
  shows "ask_unit_price e uid text s =
           (send (s\<lparr>users := (users s)(uid \<mapsto> \<lparr>unit_price = Some price, stock = 0,
                        dashboard_message_id = None, start_smoking_date = None\<rparr>)\<rparr>)
              (SendPrompt (PriceSet price)), Returned ASKING_START_DATE)"
  using assms float_gt_zero_bind [of price]
  by (simp add: ask_unit_price_def create_user_def)

text \<open>
  Claim C10. \<^verbatim>\<open>cancel\<close> removes the two pending-input keys of the user from
  \<^verbatim>\<open>context.user_data\<close> and changes nothing else: both tables and the transport
  log are the same. In particular, when a valid price has been given at the price step
  of the onboarding and \<^verbatim>\<open>/cancel\<close> arrives at the start-date step, the profile
  created at the price step stays, with that unit price, stock 0 and no start date, the
  usage table is untouched, and the conversation is over.
\<close>

theorem cancel_keeps_database:
  "cancel uid s =
     (s\<lparr>user_data := (user_data s)(uid := (user_data s uid)
                          (key_new_price uid := None, key_smoked_more uid := None))\<rparr>, Returned END)
   \<and> (conversations a uid = Some ASKING_UNIT_PRICE \<and> users (app_bot a) uid = None
        \<and> py_float (strip text) = Some price \<and> float_gt_zero price \<longrightarrow>
       (let a1 = dispatch e1 uid (TextMessage text) a;
            a2 = dispatch e2 uid (Command ''cancel'') a1
        in conversations a1 uid = Some ASKING_START_DATE
           \<and> users (app_bot a2) = (users (app_bot a))(uid \<mapsto> \<lparr>unit_price = Some price, stock = 0,
                 dashboard_message_id = None, start_smoking_date = None\<rparr>)
           \<and> usage (app_bot a2) = usage (app_bot a)
           \<and> usage_seq (app_bot a2) = usage_seq (app_bot a)
           \<and> conversations a2 uid = None))"
proof (intro conjI impI)
  show "cancel uid s =
     (s\<lparr>user_data := (user_data s)(uid := (user_data s uid)
                          (key_new_price uid := None, key_smoked_more uid := None))\<rparr>, Returned END)"
    by (rule cancel_eq)
next
  assume h: "conversations a uid = Some ASKING_UNIT_PRICE \<and> users (app_bot a) uid = None
        \<and> py_float (strip text) = Some price \<and> float_gt_zero price"
  let ?row = "\<lparr>unit_price = Some price, stock = 0,
                 dashboard_message_id = None, start_smoking_date = None\<rparr>"
  let ?s1 = "send ((app_bot a)\<lparr>users := (users (app_bot a))(uid \<mapsto> ?row)\<rparr>) (SendPrompt (PriceSet price))"
  define a1 where "a1 = dispatch e1 uid (TextMessage text) a"
  have ask: "ask_unit_price e1 uid text (app_bot a) = (?s1, Returned ASKING_START_DATE)"
    using h by (simp add: ask_unit_price_valid)
  have a1: "a1 = \<lparr>app_bot = ?s1, conversations = (conversations a)(uid \<mapsto> ASKING_START_DATE)\<rparr>"
    using h by (simp add: a1_def dispatch_def ask)
  have a2: "dispatch e2 uid (Command ''cancel'') a1 =
              conversation_result a1 uid (cancel uid (app_bot a1))"
    by (simp add: dispatch_def a1)
  show "let a1 = dispatch e1 uid (TextMessage text) a;
            a2 = dispatch e2 uid (Command ''cancel'') a1
        in conversations a1 uid = Some ASKING_START_DATE
           \<and> users (app_bot a2) = (users (app_bot a))(uid \<mapsto> ?row)
           \<and> usage (app_bot a2) = usage (app_bot a)
           \<and> usage_seq (app_bot a2) = usage_seq (app_bot a)
           \<and> conversations a2 uid = None"
    unfolding Let_def a1_def [symmetric] a2
    by (simp add: cancel_eq a1)
qed

theorem cancel_keeps_database_witness:
  "let a = initial_state\<lparr>conversations := [7 \<mapsto> ASKING_UNIT_PRICE]\<rparr>;
       a1 = dispatch example_env 7 (TextMessage ''1.5'') a;
       a2 = dispatch example_env 7 (Command ''cancel'') a1
   in conversations a1 7 = Some ASKING_START_DATE
      \<and> users (app_bot a2) 7 = Some \<lparr>unit_price = Some (Fin (3 / 2)), stock = 0,
                                   dashboard_message_id = None, start_smoking_date = None\<rparr>
      \<and> usage (app_bot a2) = [] \<and> conversations a2 7 = None"
proof -
  let ?a = "initial_state\<lparr>conversations := [7 \<mapsto> ASKING_UNIT_PRICE]\<rparr>"
  have h: "conversations ?a 7 = Some ASKING_UNIT_PRICE \<and> users (app_bot ?a) 7 = None
        \<and> py_float (strip ''1.5'') = Some (Fin (3 / 2)) \<and> float_gt_zero (Fin (3 / 2))"
    by (simp add: initial_state_def py_float_examples)
  have u: "usage (app_bot ?a) = []"
    by (simp add: initial_state_def)
  from cancel_keeps_database [of 7 "app_bot ?a" ?a "''1.5''" "Fin (3 / 2)" example_env example_env] h
  show ?thesis
    unfolding Let_def u by simp
qed

subsection \<open>Consumption\<close>

lemma float_mul_int_bind:
  "price \<noteq> NaN \<Longrightarrow> 1 \<le> q \<Longrightarrow>
   sql_bind_real (Some (float_mul_int price q)) = Some (float_mul_int price q)"
  by (cases price) (simp_all add: float_mul_int_def float_of_int_def)

lemma consume_more_state:
  assumes "users s uid = Some row" and "unit_price row = Some price"
    and "flag_set s uid (key_smoked_more uid)" and "\<not> flag_set s uid (key_new_price uid)"
    and "py_int (lower (strip text)) = Some q" and "0 < q" and "q \<le> stock row"
  shows "handle_text_message e uid text s =
           then_dashboard e uid False ()
             (pop_flag (log_smoke_event (log_now e) (update_user_stock s uid (stock row - q)) uid q
                          (Some (float_mul_int price q))) uid (key_smoked_more uid))"
  using assms by (simp add: handle_text_message_def Let_def get_user_def)

lemma consume_more_effect:
  assumes "users s uid = Some row" and "unit_price row = Some price" and "price \<noteq> NaN"
    and "flag_set s uid (key_smoked_more uid)" and "\<not> flag_set s uid (key_new_price uid)"
    and "py_int (lower (strip text)) = Some q" and "1 \<le> q" and "q \<le> stock row"
  shows "let s' = fst (handle_text_message e uid text s) in
           profiles s' = (profiles s)(uid \<mapsto> (Some price, stock row - q, start_smoking_date row))
           \<and> stocks s' = (stocks s)(uid \<mapsto> stock row - q)
           \<and> usage s' = usage s @ [\<lparr>row_id = usage_seq s + 1, user_id = uid,
                                       timestamp = datetime_isoformat (log_now e), quantity = q,
                                       cost = Some (float_mul_int price q)\<rparr>]
           \<and> \<not> flag_set s' uid (key_smoked_more uid)"
proof -
  have pos: "0 < q" using assms(7) by simp
  note st = consume_more_state [OF assms(1,2,4,5,6) pos assms(8), of e]
  have "profiles (fst (handle_text_message e uid text s)) =
          (profiles s)(uid \<mapsto> (Some price, stock row - q, start_smoking_date row))"
    using assms(1,2) by (simp add: st profiles_update_user_stock)
  moreover have "stocks (fst (handle_text_message e uid text s)) = (stocks s)(uid \<mapsto> stock row - q)"
    using assms(1) by (simp add: st stocks_update_user_stock)
  moreover have "usage (fst (handle_text_message e uid text s)) =
          usage s @ [\<lparr>row_id = usage_seq s + 1, user_id = uid,
                       timestamp = datetime_isoformat (log_now e), quantity = q,
                       cost = Some (float_mul_int price q)\<rparr>]"
    using float_mul_int_bind [OF assms(3,7)] by (simp add: st)
  moreover have "\<not> flag_set (fst (handle_text_message e uid text s)) uid (key_smoked_more uid)"
    by (simp add: st)
  ultimately show ?thesis by (simp add: Let_def)
qed

text \<open>
  Claim C1, as amended. Let a user have a profile whose unit price is a number, a
  pending consume-more flag and no pending change-price flag. When the user sends a
  text that \<^verbatim>\<open>int\<close> reads as \<open>q\<close> with \<open>1 \<le> q \<le> stock\<close>, the stored stock
  becomes \<open>stock - q\<close>, unit price and start date stay, exactly one row is appended to
  \<^verbatim>\<open>usage\<close>, with quantity \<open>q\<close> and cost \<open>unit_price * q\<close>, and the flag is
  cleared. The profiles of the other users are not touched.
\<close>

theorem consume_more_decrements_stock:
  assumes "users s uid = Some row" and "unit_price row = Some price" and "price \<noteq> NaN"
    and "flag_set s uid (key_smoked_more uid)" and "\<not> flag_set s uid (key_new_price uid)"
    and "py_int (lower (strip text)) = Some q" and "1 \<le> q" and "q \<le> stock row"
  shows "let s' = fst (handle_text_message e uid text s) in
           profiles s' = (profiles s)(uid \<mapsto> (Some price, stock row - q, start_smoking_date row))
           \<and> stocks s' = (stocks s)(uid \<mapsto> stock row - q)
           \<and> usage s' = usage s @ [\<lparr>row_id = usage_seq s + 1, user_id = uid,
                                       timestamp = datetime_isoformat (log_now e), quantity = q,
                                       cost = Some (float_mul_int price q)\<rparr>]
           \<and> \<not> flag_set s' uid (key_smoked_more uid)"
  using assms by (rule consume_more_effect)

theorem consume_more_witness:
  "let s = example_state example_row [key_smoked_more 7 \<mapsto> True];
       s' = fst (handle_text_message example_env 7 ''3'' s)
   in stocks s 7 = Some 5 \<and> stocks s' 7 = Some 2
      \<and> usage s' = [\<lparr>row_id = 1, user_id = 7, timestamp = ''2024-03-05T10:30:00'', quantity = 3,
                       cost = Some (Fin (3 / 2))\<rparr>]"
proof -
  let ?s = "example_state example_row [key_smoked_more 7 \<mapsto> True]"
  have ts: "datetime_isoformat (log_now example_env) = ''2024-03-05T10:30:00''"
    by code_simp
  have c: "float_mul_int (Fin (1 / 2)) 3 = Fin (3 / 2)"
    by (simp add: float_mul_int_def float_of_int_def)
  have "let s' = fst (handle_text_message example_env 7 ''3'' ?s) in
           profiles s' = (profiles ?s)(7 \<mapsto> (Some (Fin (1 / 2)), stock example_row - 3,
                                               start_smoking_date example_row))
           \<and> stocks s' = (stocks ?s)(7 \<mapsto> stock example_row - 3)
           \<and> usage s' = usage ?s @ [\<lparr>row_id = usage_seq ?s + 1, user_id = 7,
                                       timestamp = datetime_isoformat (log_now example_env),
                                       quantity = 3,
                                       cost = Some (float_mul_int (Fin (1 / 2)) 3)\<rparr>]
           \<and> \<not> flag_set s' 7 (key_smoked_more 7)"
    by (rule consume_more_decrements_stock [where row = example_row])
       (simp_all add: example_flags py_int_examples example_row_def)
  then have st: "stocks (fst (handle_text_message example_env 7 ''3'' ?s)) =
                   (stocks ?s)(7 \<mapsto> stock example_row - 3)"
    and us: "usage (fst (handle_text_message example_env 7 ''3'' ?s)) =
               usage ?s @ [\<lparr>row_id = usage_seq ?s + 1, user_id = 7,
                                       timestamp = datetime_isoformat (log_now example_env),
                                       quantity = 3,
                                       cost = Some (float_mul_int (Fin (1 / 2)) 3)\<rparr>]"
    by (simp_all add: Let_def)
  have "stocks (fst (handle_text_message example_env 7 ''3'' ?s)) 7 = Some 2"
    by (subst st) (simp add: example_row_def)
  moreover have "stocks ?s 7 = Some 5"
    by (simp add: stocks_def example_row_def)
  ultimately show ?thesis
    unfolding Let_def us by (simp add: ts c)
qed

lemma both_flags_after_buttons:
  assumes "users s uid = Some row"
  shows "let s1 = fst (menu_callback e1 uid ''CHANGE_PRICE'' s);
             s2 = fst (menu_callback e2 uid ''SMOKE_MORE'' s1)
         in flag_set s2 uid (key_new_price uid) \<and> flag_set s2 uid (key_smoked_more uid)
            \<and> users s2 = users s \<and> usage s2 = usage s"
proof -
  have 1: "fst (menu_callback e1 uid ''CHANGE_PRICE'' s) =
             set_flag (send s AnswerCallback) uid (key_new_price uid)"
    using assms by (simp add: menu_callback_def get_user_def)
  have 2: "fst (menu_callback e2 uid ''SMOKE_MORE'' s1) =
             set_flag (send s1 AnswerCallback) uid (key_smoked_more uid)"
    if "users s1 uid = Some row" for s1
    using that by (simp add: menu_callback_def get_user_def)
  have u: "users (set_flag (send s AnswerCallback) uid (key_new_price uid)) uid = Some row"
    using assms by simp
  show ?thesis
    unfolding Let_def 1 2 [OF u]
    by (simp add: flag_set_def)
qed

text \<open>
  The claim C1 as it was stated asks only for a profile and a pending consume-more flag.
  It fails when the change-price flag is pending too (the buttons \<^verbatim>\<open>CHANGE_PRICE\<close>
  and \<^verbatim>\<open>SMOKE_MORE\<close> pressed one after the other set both, as the lemma
  \<open>both_flags_after_buttons\<close> shows): \<^verbatim>\<open>handle_text_message\<close>
  looks at the price flag first and returns, so the text \<^verbatim>\<open>3\<close> becomes the new unit
  price; the stock stays 5 and nothing is logged.
\<close>

theorem consume_more_with_both_flags:
  "let s = example_state example_row [key_smoked_more 7 \<mapsto> True, key_new_price 7 \<mapsto> True];
       s' = fst (handle_text_message example_env 7 ''3'' s)
   in flag_set s 7 (key_smoked_more 7) \<and> users s 7 = Some example_row \<and> stock example_row = 5
      \<and> py_int (lower (strip ''3'')) = Some 3
      \<and> stocks s' 7 = Some 5 \<and> usage s' = []"
proof -
  let ?s = "example_state example_row [key_smoked_more 7 \<mapsto> True, key_new_price 7 \<mapsto> True]"
  have f: "flag_set ?s 7 (key_new_price 7)" and g: "flag_set ?s 7 (key_smoked_more 7)"
    by (rule example_flags)+
  have "stocks ?s 7 = Some 5"
    by (simp add: stocks_def example_row_def)
  with price_reply_frame [OF f, of example_env "''3''"] g
  show ?thesis
    by (simp add: Let_def py_int_examples example_row_def)
qed

text \<open>
  Claim C5. An invalid consumption attempt leaves the stock of every user and the usage
  table as they are. For the consume-more reply: the text is not an integer, or the
  quantity is not positive or exceeds the stock; then no stock and no usage row is
  written, and, unless a price change is pending as well, the whole profile data (unit
  price, stock, start date) is the same. For the button \<^verbatim>\<open>SMOKE_ONE\<close> with stock 0:
  the stock stays 0 and no event is recorded.
\<close>

theorem invalid_consumption_changes_nothing:
  "(flag_set s uid (key_smoked_more uid) \<and> users s uid = Some row
      \<and> (py_int (lower (strip text)) = None
           \<or> (\<exists>qty. py_int (lower (strip text)) = Some qty \<and> (qty \<le> 0 \<or> stock row < qty)))
    \<longrightarrow> (let s' = fst (handle_text_message e uid text s)
         in stocks s' = stocks s \<and> usage s' = usage s \<and> usage_seq s' = usage_seq s
            \<and> (\<not> flag_set s uid (key_new_price uid) \<longrightarrow> profiles s' = profiles s)))
   \<and> (users s uid = Some row \<and> stock row = 0
    \<longrightarrow> (let s' = fst (menu_callback e uid ''SMOKE_ONE'' s)
         in stocks s' uid = Some 0 \<and> profiles s' = profiles s
            \<and> usage s' = usage s \<and> usage_seq s' = usage_seq s))"
proof (intro conjI impI)
  assume h: "flag_set s uid (key_smoked_more uid) \<and> users s uid = Some row
      \<and> (py_int (lower (strip text)) = None
           \<or> (\<exists>qty. py_int (lower (strip text)) = Some qty \<and> (qty \<le> 0 \<or> stock row < qty)))"
  then have rej: "py_int (lower (strip text)) = None
         \<or> (\<exists>qty. py_int (lower (strip text)) = Some qty
               \<and> (qty \<le> 0 \<or> (\<forall>r. users s uid = Some r \<longrightarrow> stock r < qty)))"
    by auto
  show "let s' = fst (handle_text_message e uid text s)
         in stocks s' = stocks s \<and> usage s' = usage s \<and> usage_seq s' = usage_seq s
            \<and> (\<not> flag_set s uid (key_new_price uid) \<longrightarrow> profiles s' = profiles s)"
  proof (cases "flag_set s uid (key_new_price uid)")
    case True
    then show ?thesis by (simp add: Let_def price_reply_frame)
  next
    case False
    note fr = rejected_quantity_frame [OF False rej, of e]
    from fr(1) have "stocks (fst (handle_text_message e uid text s)) = stocks s"
      by (rule stocks_profiles)
    with fr show ?thesis by (simp add: Let_def)
  qed
next
  assume h: "users s uid = Some row \<and> stock row = 0"
  then have u: "users s uid = Some row" and z: "stock row = 0" by simp_all
  note fr = smoke_one_empty_frame [OF u z, of e]
  from fr(1) have "stocks (fst (menu_callback e uid ''SMOKE_ONE'' s)) = stocks s"
    by (rule stocks_profiles)
  moreover have "stocks s uid = Some 0" using u z by (simp add: stocks_def)
  ultimately
  show "let s' = fst (menu_callback e uid ''SMOKE_ONE'' s)
         in stocks s' uid = Some 0 \<and> profiles s' = profiles s
            \<and> usage s' = usage s \<and> usage_seq s' = usage_seq s"
    using fr by (simp add: Let_def)
qed


theorem invalid_consumption_witness:
  "let s = example_state (example_row\<lparr>stock := 0\<rparr>) [key_smoked_more 7 \<mapsto> True];
       s1 = fst (handle_text_message example_env 7 ''9'' s);
       s2 = fst (menu_callback example_env 7 ''SMOKE_ONE'' s)
   in stocks s1 = stocks s \<and> profiles s1 = profiles s \<and> usage s1 = []
      \<and> stocks s2 7 = Some 0 \<and> profiles s2 = profiles s \<and> usage s2 = []"
proof -
  let ?row = "example_row\<lparr>stock := 0\<rparr>"
  let ?s = "example_state ?row [key_smoked_more 7 \<mapsto> True]"
  have h1: "flag_set ?s 7 (key_smoked_more 7) \<and> users ?s 7 = Some ?row
      \<and> (py_int (lower (strip ''9'')) = None
           \<or> (\<exists>qty. py_int (lower (strip ''9'')) = Some qty \<and> (qty \<le> 0 \<or> stock ?row < qty)))"
    by (simp add: example_flags py_int_examples)
  have h2: "users ?s 7 = Some ?row \<and> stock ?row = 0"
    by simp
  have n: "\<not> flag_set ?s 7 (key_new_price 7)"
    by (simp add: example_flags)
  note t = invalid_consumption_changes_nothing [of ?s 7 ?row "''9''" example_env]
  from t [THEN conjunct1, rule_format, OF h1] t [THEN conjunct2, rule_format, OF h2] n
  show ?thesis
    unfolding Let_def by simp
qed

subsection \<open>The stock never goes below zero\<close>

lemma stock_step_same: "stocks s' = stocks s \<Longrightarrow> stock_step s s'"
  by (simp add: stock_step_def stock_change_def)

lemma stock_step_upd:
  "stock_change (stocks s uid) (Some n) \<Longrightarrow> stocks s' = (stocks s)(uid \<mapsto> n) \<Longrightarrow> stock_step s s'"
  by (simp add: stock_step_def) (simp add: stock_change_def)

lemma stock_nonneg_stocks: "stock_nonneg s = (\<forall>uid n. stocks s uid = Some n \<longrightarrow> 0 \<le> n)"
  by (auto simp: stock_nonneg_def stocks_def)

lemma stock_change_nonneg:
  "stock_change old (Some n') \<Longrightarrow> (\<And>n. old = Some n \<Longrightarrow> 0 \<le> n) \<Longrightarrow> 0 \<le> n'"
  by (auto simp: stock_change_def)

lemma stock_change_decrement:
  "stock_change (Some n) (Some n') \<Longrightarrow> n' < n \<Longrightarrow> 0 \<le> n'"
  by (auto simp: stock_change_def)

lemma stock_step_nonneg:
  assumes "stock_step s s'" and "stock_nonneg s"
  shows "stock_nonneg s'"
  unfolding stock_nonneg_stocks
proof (intro allI impI)
  fix uid n'
  assume n': "stocks s' uid = Some n'"
  from assms(1) have "stock_change (stocks s uid) (Some n')"
    by (simp add: stock_step_def n' [symmetric])
  moreover have "0 \<le> n" if "stocks s uid = Some n" for n
    using assms(2) that by (simp add: stock_nonneg_stocks)
  ultimately show "0 \<le> n'"
    by (rule stock_change_nonneg)
qed

lemma stock_step_decrement:
  assumes "stock_step s s'" and "stocks s uid = Some n" and "stocks s' uid = Some n'" and "n' < n"
  shows "0 \<le> n'"
proof -
  from assms(1) have "stock_change (Some n) (Some n')"
    by (simp add: stock_step_def assms(2,3) [symmetric])
  then show ?thesis using assms(4) by (rule stock_change_decrement)
qed

lemma stocks_create_user:
  "create_user s uid p = Inr s' \<Longrightarrow> stocks s uid = None \<and> stocks s' = (stocks s)(uid \<mapsto> 0)"
  by (auto simp: create_user_def stocks_def split: if_splits)

lemma start_stocks: "stocks (fst (start e uid s)) = stocks s"
  by (simp add: start_def split: option.splits)

lemma ask_start_date_stocks: "stocks (fst (ask_start_date e uid text s)) = stocks s"
  by (simp add: ask_start_date_def Let_def split: option.splits)

lemma cancel_stocks: "stocks (fst (cancel uid s)) = stocks s"
  by (simp add: cancel_def)

lemma ask_unit_price_stock_step: "stock_step s (fst (ask_unit_price e uid text s))"
proof (cases "py_float (strip text)")
  case None
  then show ?thesis
    by (simp add: ask_unit_price_def stock_step_same)
next
  case (Some price)
  show ?thesis
  proof (cases "float_le_zero price")
    case True
    with Some show ?thesis
      by (simp add: ask_unit_price_def stock_step_same)
  next
    case False
    show ?thesis
    proof (cases "create_user s uid price")
      case (Inl err)
      with Some False show ?thesis
        by (simp add: ask_unit_price_def stock_step_same)
    next
      case (Inr s1)
      from stocks_create_user [OF Inr]
      have "stock_change (stocks s uid) (Some 0)" and "stocks s1 = (stocks s)(uid \<mapsto> 0)"
        by (simp_all add: stock_change_def)
      then have "stock_step s (send s1 m)" for m
        by (intro stock_step_upd [where n = 0]) simp_all
      with Some False Inr show ?thesis
        by (simp add: ask_unit_price_def)
    qed
  qed
qed

lemma menu_callback_stock_step: "stock_step s (fst (menu_callback e uid choice s))"
proof (cases "users s uid")
  case None
  then show ?thesis
    by (simp add: menu_callback_def get_user_def stock_step_same)
next
  case (Some row)
  then have old: "stocks s uid = Some (stock row)"
    by (simp add: stocks_def)
  have us: "users (send s AnswerCallback) uid = Some row"
    using Some by simp
  have upd: "stock_change (Some (stock row)) (Some n) \<Longrightarrow>
        stock_step s (fst (then_dashboard e uid False () (update_user_stock (send s AnswerCallback) uid n)))"
    for n
    by (rule stock_step_upd [where n = n]) (simp_all add: old stocks_update_user_stock [OF us])
  have upd2: "stock_change (Some (stock row)) (Some n) \<Longrightarrow>
        stock_step s (fst (then_dashboard e uid False ()
          (log_smoke_event t (update_user_stock (send s AnswerCallback) uid n) uid q c)))"
    for n t q c
    by (rule stock_step_upd [where n = n]) (simp_all add: old stocks_update_user_stock [OF us])
  have c20: "stock_change (Some (stock row)) (Some (stock row + 20))"
    and c1: "stock_change (Some (stock row)) (Some (stock row + 1))"
    and cm: "0 < stock row \<Longrightarrow> stock_change (Some (stock row)) (Some (stock row - 1))"
    by (auto simp: stock_change_def intro: exI [where x = 1])
  show ?thesis
    using Some upd [OF c20] upd [OF c1] upd2 [OF cm]
    by (simp add: menu_callback_def Let_def get_user_def stock_step_same)
qed

lemma handle_text_message_stock_step: "stock_step s (fst (handle_text_message e uid text s))"
proof (cases "flag_set s uid (key_new_price uid)")
  case True
  then show ?thesis by (simp add: stock_step_same price_reply_frame)
next
  case False
  show ?thesis
  proof (cases "flag_set s uid (key_smoked_more uid)")
    case nf: False
    with False show ?thesis
      by (simp add: handle_text_message_def Let_def stock_step_same)
  next
    case True
    show ?thesis
    proof (cases "users s uid")
      case None
      with True False show ?thesis
        by (simp add: handle_text_message_def Let_def get_user_def stock_step_same)
    next
      case (Some row)
      then have old: "stocks s uid = Some (stock row)"
        by (simp add: stocks_def)
      have dec: "stock_step s s'"
        if "0 < q" "q \<le> stock row" "stocks s' = stocks (update_user_stock s uid (stock row - q))"
        for q s'
      proof (rule stock_step_upd [where n = "stock row - q"])
        show "stock_change (stocks s uid) (Some (stock row - q))"
          using that(1,2) by (auto simp: old stock_change_def)
        show "stocks s' = (stocks s)(uid \<mapsto> stock row - q)"
          using that(3) by (simp add: stocks_update_user_stock [OF Some])
      qed
      show ?thesis
        using True False Some dec
        by (auto simp: handle_text_message_def Let_def get_user_def stock_step_same
                 split: option.splits)
    qed
  qed
qed

lemma dispatch_stock_step: "stock_step (app_bot a) (app_bot (dispatch e uid u a))"
proof -
  have conv: "stock_step (app_bot a) (fst r) \<Longrightarrow> stock_step (app_bot a) (app_bot (conversation_result a uid r))"
    for r :: "bot_state \<times> int outcome"
    by (cases r; cases "snd r") auto
  have refl: "stock_step (app_bot a) (app_bot a)"
    by (simp add: stock_step_same)
  show ?thesis
    by (cases u)
       (simp_all add: dispatch_def conv refl stock_step_same start_stocks cancel_stocks
          ask_start_date_stocks ask_unit_price_stock_step menu_callback_stock_step
          handle_text_message_stock_step)
qed

text \<open>
  Claim C6. Every operation preserves \<open>stock \<ge> 0\<close>. Whatever update is handled,
  from whatever user, in whatever state of the conversations and the flags: if every
  stored stock is non-negative before, every stored stock is non-negative after (this
  covers \<^verbatim>\<open>ADD_PACK\<close>, \<^verbatim>\<open>ADD_CIG\<close>, \<^verbatim>\<open>SMOKE_ONE\<close>, the consume-more reply,
  the price change and the onboarding, which stores stock 0). Every decrement is
  guarded: a stock that goes down in a step is still non-negative after it, with no
  assumption on the state before. Hence the stock is non-negative in every reachable
  state.
\<close>

theorem stock_never_negative:
  "(stock_nonneg (app_bot a) \<longrightarrow> stock_nonneg (app_bot (dispatch e uid u a)))
   \<and> (stocks (app_bot a) v = Some n \<and> stocks (app_bot (dispatch e uid u a)) v = Some n' \<and> n' < n
        \<longrightarrow> 0 \<le> n')
   \<and> (reachable a \<longrightarrow> stock_nonneg (app_bot a))"
proof (intro conjI impI)
  assume "stock_nonneg (app_bot a)"
  with dispatch_stock_step show "stock_nonneg (app_bot (dispatch e uid u a))"
    by (rule stock_step_nonneg)
next
  assume "stocks (app_bot a) v = Some n \<and> stocks (app_bot (dispatch e uid u a)) v = Some n' \<and> n' < n"
  with stock_step_decrement [OF dispatch_stock_step] show "0 \<le> n'"
    by blast
next
  assume "reachable a"
  then show "stock_nonneg (app_bot a)"
  proof induction
    case reachable_initial
    show ?case by (simp add: stock_nonneg_def initial_state_def)
  next
    case (reachable_dispatch a e uid u)
    then show ?case
      by (intro stock_step_nonneg [OF dispatch_stock_step])
  qed
qed

theorem stock_never_negative_witness:
  "let a = \<lparr>app_bot = example_state example_row [key_smoked_more 7 \<mapsto> True],
            conversations = Map.empty\<rparr>;
       a' = dispatch example_env 7 (TextMessage ''3'') a
   in stock_nonneg (app_bot a) \<and> stock_nonneg (app_bot a')
      \<and> stocks (app_bot a) 7 = Some 5 \<and> stocks (app_bot a') 7 = Some 2
      \<and> stock_nonneg (app_bot initial_state)"
proof -
  let ?s = "example_state example_row [key_smoked_more 7 \<mapsto> True]"
  let ?a = "\<lparr>app_bot = ?s, conversations = Map.empty\<rparr>"
  let ?a' = "dispatch example_env 7 (TextMessage ''3'') ?a"
  have h: "stock_nonneg (app_bot ?a)"
    by (simp add: stock_nonneg_def example_state_def example_row_def)
  have d: "app_bot ?a' = fst (handle_text_message example_env 7 ''3'' ?s)"
    by (simp add: dispatch_def)
  have "let s' = fst (handle_text_message example_env 7 ''3'' ?s) in
           profiles s' = (profiles ?s)(7 \<mapsto> (Some (Fin (1 / 2)), stock example_row - 3,
                                               start_smoking_date example_row))
           \<and> stocks s' = (stocks ?s)(7 \<mapsto> stock example_row - 3)
           \<and> usage s' = usage ?s @ [\<lparr>row_id = usage_seq ?s + 1, user_id = 7,
                                       timestamp = datetime_isoformat (log_now example_env),
                                       quantity = 3,
                                       cost = Some (float_mul_int (Fin (1 / 2)) 3)\<rparr>]
           \<and> \<not> flag_set s' 7 (key_smoked_more 7)"
    by (rule consume_more_effect [where row = example_row])
       (simp_all add: example_flags py_int_examples example_row_def)
  then have "stocks (fst (handle_text_message example_env 7 ''3'' ?s)) =
               (stocks ?s)(7 \<mapsto> stock example_row - 3)"
    by (simp add: Let_def)
  then have after: "stocks (app_bot ?a') 7 = Some 2"
    unfolding d by (simp add: example_row_def)
  have before: "stocks (app_bot ?a) 7 = Some 5"
    by (simp add: stocks_def example_row_def)
  have dec: "stocks (app_bot ?a) 7 = Some 5 \<and> stocks (app_bot ?a') 7 = Some 2 \<and> (2::int) < 5"
    using before after by simp
  note t = stock_never_negative [of ?a example_env 7 "TextMessage ''3''" 7 5 2]
  note i = stock_never_negative [of initial_state example_env 7 "TextMessage ''3''" 7 5 2]
  from t [THEN conjunct1, rule_format, OF h] h before after
       t [THEN conjunct2, THEN conjunct1, rule_format, OF dec]
       i [THEN conjunct2, THEN conjunct2, rule_format, OF reachable_initial]
  show ?thesis
    unfolding Let_def by simp
qed

subsection \<open>The price step of the onboarding\<close>

lemma app_bot_conversation_result [simp]: "app_bot (conversation_result a uid r) = fst r"
  by (cases r; cases "snd r") auto

lemma ask_unit_price_rejects:
  assumes "py_float (strip text) = None
           \<or> (\<exists>p. py_float (strip text) = Some p \<and> float_le_zero p)"
  shows "ask_unit_price e uid text s =
           (send s (SendPrompt InvalidNumber), Returned ASKING_UNIT_PRICE)"
  using assms by (auto simp: ask_unit_price_def)

lemma start_new_user:
  "users s uid = None \<Longrightarrow>
   start e uid s = (send s (SendPrompt AskUnitPrice), Returned ASKING_UNIT_PRICE)"
  by (simp add: start_def get_user_def)

lemma dispatch_start_new_user:
  assumes "users (app_bot a) uid = None"
  shows "dispatch e uid (Command ''start'') a =
           \<lparr>app_bot = send (app_bot a) (SendPrompt AskUnitPrice),
            conversations = (conversations a)(uid \<mapsto> ASKING_UNIT_PRICE)\<rparr>"
  using assms by (simp add: dispatch_def start_new_user)

lemma ask_unit_price_nan:
  assumes "users s uid = None"
  shows "ask_unit_price e uid ''nan'' s =
           (send (s\<lparr>users := (users s)(uid \<mapsto> \<lparr>unit_price = None, stock = 0,
                        dashboard_message_id = None, start_smoking_date = None\<rparr>)\<rparr>)
              (SendPrompt (PriceSet NaN)), Returned ASKING_START_DATE)"
  using assms by (simp add: ask_unit_price_def create_user_def py_float_examples)

text \<open>
  Claim C7 says that every input at the price step that is not a positive number is
  refused and that every profile is created with a unit price above zero. The lemmas
  \<open>ask_unit_price_rejects\<close> and \<open>ask_unit_price_valid\<close> are the part that holds: no
  number, or a value \<open>\<le> 0\<close>, re-prompts and creates nothing; a positive value creates
  the profile with that price and stock 0.
  The text \<^verbatim>\<open>nan\<close> escapes the check: \<^verbatim>\<open>float\<close> accepts it, \<^verbatim>\<open>price <= 0\<close> is
  false for the NaN, and \<^verbatim>\<open>create_user\<close> runs. The profile is created with a unit
  price that is no number (SQLite stores \<^verbatim>\<open>NULL\<close>), and the flow goes on to the
  start-date step. The handler of the price change tests \<^verbatim>\<open>new_price > 0\<close> and does
  refuse the NaN.
\<close>

theorem nan_price_creates_profile:
  "let a1 = dispatch e1 uid (Command ''start'') initial_state;
       a2 = dispatch e2 uid (TextMessage ''nan'') a1
   in conversations a1 uid = Some ASKING_UNIT_PRICE \<and> users (app_bot a1) uid = None
      \<and> users (app_bot a2) uid = Some \<lparr>unit_price = None, stock = 0,
                                         dashboard_message_id = None, start_smoking_date = None\<rparr>
      \<and> conversations a2 uid = Some ASKING_START_DATE"
proof -
  have n: "users (app_bot initial_state) uid = None"
    by (simp add: initial_state_def)
  define a1 where "a1 = dispatch e1 uid (Command ''start'') initial_state"
  have a1: "a1 = \<lparr>app_bot = send (app_bot initial_state) (SendPrompt AskUnitPrice),
                   conversations = (conversations initial_state)(uid \<mapsto> ASKING_UNIT_PRICE)\<rparr>"
    unfolding a1_def using n by (rule dispatch_start_new_user)
  have n1: "users (app_bot a1) uid = None" and c1: "conversations a1 uid = Some ASKING_UNIT_PRICE"
    using n by (simp_all add: a1)
  have "dispatch e2 uid (TextMessage ''nan'') a1 =
          conversation_result a1 uid (ask_unit_price e2 uid ''nan'' (app_bot a1))"
    using c1 by (simp add: dispatch_def)
  then have "users (app_bot (dispatch e2 uid (TextMessage ''nan'') a1)) uid =
               Some \<lparr>unit_price = None, stock = 0,
                      dashboard_message_id = None, start_smoking_date = None\<rparr>
             \<and> conversations (dispatch e2 uid (TextMessage ''nan'') a1) uid = Some ASKING_START_DATE"
    by (simp add: ask_unit_price_nan [OF n1])
  with n1 c1 show ?thesis
    unfolding Let_def a1_def [symmetric] by simp
qed

lemma change_price_refuses_nan:
  assumes "flag_set s uid (key_new_price uid)"
  shows "profiles (fst (handle_text_message e uid ''nan'' s)) = profiles s"
proof -
  have "py_float (lower (strip ''nan'')) = Some NaN"
    by code_simp
  with assms show ?thesis
    by (simp add: handle_text_message_def Let_def)
qed

subsection \<open>Start dates\<close>

lemma start_dates_profiles: "profiles s' = profiles s \<Longrightarrow> start_dates s' = start_dates s"
proof -
  assume h: "profiles s' = profiles s"
  have "start_dates t = (\<lambda>uid. map_option (\<lambda>p. snd (snd p)) (profiles t uid))" for t
    by (simp add: start_dates_def profiles_def profile_data_def option.map_comp comp_def)
  with h show ?thesis by simp
qed

lemma start_dates_valid_same:
  "start_dates s' = start_dates s \<Longrightarrow> start_dates_valid s \<Longrightarrow> start_dates_valid s'"
  by (simp add: start_dates_valid_def)

lemma start_dates_valid_upd:
  assumes "start_dates s' = (start_dates s)(uid \<mapsto> v)" and "start_dates_valid s"
    and "\<And>d. v = Some d \<Longrightarrow> is_iso_date d"
  shows "start_dates_valid s'"
  using assms by (auto simp: start_dates_valid_def)

lemma start_dates_then_dashboard [simp]:
  "start_dates (fst (then_dashboard e uid n r s)) = start_dates s"
  by (rule start_dates_profiles) simp

lemma start_dates_simps [simp]:
  "start_dates (send s m) = start_dates s"
  "start_dates (set_flag s uid k) = start_dates s"
  "start_dates (pop_flag s uid k) = start_dates s"
  "start_dates (log_smoke_event now s uid q c) = start_dates s"
  "start_dates (update_user_stock s uid n) = start_dates s"
  "start_dates (update_user_price s uid p) = start_dates s"
  by (auto simp: start_dates_def update_user_stock_def update_user_price_def users_update_row
           split: option.splits)

lemma start_dates_update_user_start_date:
  "start_dates (update_user_start_date s uid d) = start_dates s
   \<or> start_dates (update_user_start_date s uid d) = (start_dates s)(uid \<mapsto> Some d)"
  by (cases "users s uid")
     (auto simp: start_dates_def update_user_start_date_def users_update_row)

lemma start_dates_create_user:
  "create_user s uid p = Inr s' \<Longrightarrow> start_dates s' = (start_dates s)(uid \<mapsto> None)"
  by (auto simp: create_user_def start_dates_def split: if_splits)

lemma strptime_ymd_valid: "strptime_ymd text = Some dt \<Longrightarrow> valid_date dt"
  by (auto simp: strptime_ymd_def make_date_def Let_def split: if_splits option.splits)

lemma start_start_dates: "start_dates (fst (start e uid s)) = start_dates s"
  by (simp add: start_def split: option.splits)

lemma cancel_start_dates: "start_dates (fst (cancel uid s)) = start_dates s"
  by (simp add: cancel_def)

lemma menu_callback_start_dates: "start_dates (fst (menu_callback e uid choice s)) = start_dates s"
  by (simp add: menu_callback_def Let_def split: option.splits)

lemma handle_text_message_start_dates:
  "start_dates (fst (handle_text_message e uid text s)) = start_dates s"
  by (simp add: handle_text_message_def Let_def split: option.splits)

lemma ask_unit_price_start_dates_valid:
  "start_dates_valid s \<Longrightarrow> start_dates_valid (fst (ask_unit_price e uid text s))"
proof (cases "py_float (strip text)")
  case None
  assume "start_dates_valid s"
  with None show ?thesis
    by (simp add: ask_unit_price_def start_dates_valid_def)
next
  case (Some price)
  assume v: "start_dates_valid s"
  show ?thesis
  proof (cases "create_user s uid price")
    case (Inl err)
    with Some v show ?thesis
      by (simp add: ask_unit_price_def start_dates_valid_def)
  next
    case (Inr s1)
    have "start_dates_valid (send s1 m)" for m
      by (rule start_dates_valid_upd [where v = None and s = s and uid = uid])
         (simp_all add: start_dates_create_user [OF Inr] v)
    with Some Inr v show ?thesis
      by (simp add: ask_unit_price_def start_dates_valid_def)
  qed
qed

lemma ask_start_date_start_dates_valid:
  assumes v: "start_dates_valid s"
  shows "start_dates_valid (fst (ask_start_date e uid text s))"
proof (cases "lower (strip text) = ''skip''")
  case True
  then show ?thesis
    using v by (simp add: ask_start_date_def start_dates_valid_def)
next
  case False
  show ?thesis
  proof (cases "strptime_ymd (lower (strip text))")
    case None
    with False v show ?thesis
      by (simp add: ask_start_date_def start_dates_valid_def)
  next
    case (Some dt)
    have iso: "is_iso_date (date_isoformat dt)"
      using strptime_ymd_valid [OF Some] by (auto simp: is_iso_date_def)
    have "start_dates_valid (update_user_start_date s uid (date_isoformat dt))"
      using start_dates_update_user_start_date [of s uid "date_isoformat dt"]
    proof
      assume "start_dates (update_user_start_date s uid (date_isoformat dt)) = start_dates s"
      then show ?thesis using v by (rule start_dates_valid_same)
    next
      assume "start_dates (update_user_start_date s uid (date_isoformat dt)) =
                (start_dates s)(uid \<mapsto> Some (date_isoformat dt))"
      then show ?thesis using v by (rule start_dates_valid_upd) (simp add: iso)
    qed
    with False Some show ?thesis
      by (simp add: ask_start_date_def Let_def start_dates_valid_def)
  qed
qed

lemma dispatch_start_dates_valid:
  assumes "start_dates_valid (app_bot a)"
  shows "start_dates_valid (app_bot (dispatch e uid u a))"
proof -
  have conv: "start_dates_valid (fst r) \<Longrightarrow> start_dates_valid (app_bot (conversation_result a uid r))"
    for r :: "bot_state \<times> int outcome"
    by (cases r; cases "snd r") auto
  have same: "start_dates s' = start_dates (app_bot a) \<Longrightarrow> start_dates_valid s'" for s'
    using assms by (rule start_dates_valid_same [rotated])
  show ?thesis
    using assms
    by (cases u)
       (simp_all add: dispatch_def conv same start_start_dates cancel_start_dates
          menu_callback_start_dates handle_text_message_start_dates
          ask_unit_price_start_dates_valid ask_start_date_start_dates_valid)
qed

lemma reachable_run: "reachable a \<Longrightarrow> reachable (run tr a)"
  by (induction tr a rule: run.induct) (simp_all add: reachable_dispatch)

lemma start_dates_update_existing:
  "users s uid = Some row \<Longrightarrow>
   start_dates (update_user_start_date s uid d) = (start_dates s)(uid \<mapsto> Some d)"
  by (auto simp: start_dates_def update_user_start_date_def users_update_row)

lemma date_examples:
  "lower (strip ''2099-01-01'') = ''2099-01-01''"
  "strptime_ymd ''2099-01-01'' = Some \<lparr>year = 2099, month = 1, day = 1\<rparr>"
  "date_isoformat \<lparr>year = 2099, month = 1, day = 1\<rparr> = ''2099-01-01''"
  "date_less (date_of example_now) \<lparr>year = 2099, month = 1, day = 1\<rparr>"
  by code_simp+

lemma ask_start_date_stores:
  assumes "users s uid = Some row" and "lower (strip text) \<noteq> ''skip''"
    and "strptime_ymd (lower (strip text)) = Some dt"
  shows "start_dates (fst (ask_start_date e uid text s)) =
           (start_dates s)(uid \<mapsto> Some (date_isoformat dt))"
  using assms by (simp add: ask_start_date_def Let_def start_dates_update_existing)

lemma future_date_run_start_date:
  "start_dates (app_bot (run future_date_run initial_state)) 7 = Some (Some ''2099-01-01'')"
proof -
  define a1 where "a1 = dispatch example_env 7 (Command ''start'') initial_state"
  define a2 where "a2 = dispatch example_env 7 (TextMessage ''1.5'') a1"
  define a3 where "a3 = dispatch example_env 7 (TextMessage ''2099-01-01'') a2"
  have r: "run future_date_run initial_state = a3"
    by (simp add: future_date_run_def a1_def a2_def a3_def)
  have n: "users (app_bot initial_state) 7 = None"
    by (simp add: initial_state_def)
  have a1: "a1 = \<lparr>app_bot = send (app_bot initial_state) (SendPrompt AskUnitPrice),
                   conversations = (conversations initial_state)(7 \<mapsto> ASKING_UNIT_PRICE)\<rparr>"
    unfolding a1_def using n by (rule dispatch_start_new_user)
  have n1: "users (app_bot a1) 7 = None" and c1: "conversations a1 7 = Some ASKING_UNIT_PRICE"
    using n by (simp_all add: a1)
  have a2: "a2 = conversation_result a1 7 (ask_unit_price example_env 7 ''1.5'' (app_bot a1))"
    using c1 by (simp add: a2_def dispatch_def)
  have ask: "ask_unit_price example_env 7 ''1.5'' (app_bot a1) =
           (send ((app_bot a1)\<lparr>users := (users (app_bot a1))(7 \<mapsto> \<lparr>unit_price = Some (Fin (3 / 2)),
                        stock = 0, dashboard_message_id = None, start_smoking_date = None\<rparr>)\<rparr>)
              (SendPrompt (PriceSet (Fin (3 / 2)))), Returned ASKING_START_DATE)"
    by (rule ask_unit_price_valid [OF n1]) (simp_all add: py_float_examples)
  have u2: "users (app_bot a2) 7 = Some \<lparr>unit_price = Some (Fin (3 / 2)),
                        stock = 0, dashboard_message_id = None, start_smoking_date = None\<rparr>"
    and c2: "conversations a2 7 = Some ASKING_START_DATE"
    by (simp_all add: a2 ask)
  have a3: "a3 = conversation_result a2 7 (ask_start_date example_env 7 ''2099-01-01'' (app_bot a2))"
    using c2 by (simp add: a3_def dispatch_def)
  have "start_dates (app_bot a3) =
          (start_dates (app_bot a2))(7 \<mapsto> Some (date_isoformat \<lparr>year = 2099, month = 1, day = 1\<rparr>))"
    unfolding a3 app_bot_conversation_result
    by (rule ask_start_date_stores [OF u2]) (simp_all add: date_examples)
  then show ?thesis
    by (simp add: r date_examples)
qed

text \<open>
  Claim C8, as amended. In every reachable state, a stored start date is the ISO form
  \<^verbatim>\<open>YYYY-MM-DD\<close> of a valid calendar date (year 1 to 9999, the day within the month,
  leap years counted). Nothing relates it to the day it was submitted: the start-date
  step stores every valid date it is given.
\<close>

theorem stored_start_date_is_a_date:
  "reachable a \<Longrightarrow> start_dates_valid (app_bot a)"
proof (induction rule: reachable.induct)
  case reachable_initial
  show ?case
    by (simp add: start_dates_valid_def start_dates_def initial_state_def)
next
  case (reachable_dispatch a e uid u)
  then show ?case
    by (intro dispatch_start_dates_valid)
qed

theorem stored_start_date_witness:
  "let a = run future_date_run initial_state
   in reachable a \<and> start_dates_valid (app_bot a)"
proof -
  have r: "reachable (run future_date_run initial_state)"
    by (simp add: reachable_run reachable_initial)
  from stored_start_date_is_a_date [OF r] r show ?thesis
    by (simp add: Let_def)
qed

text \<open>
  The claim C8 as it was stated also asks that a stored start date is never in the
  future. \<^verbatim>\<open>ask_start_date\<close> does not compare the date with the clock: on
  2024-03-05 a new user who answers \<^verbatim>\<open>1.5\<close> and then \<^verbatim>\<open>2099-01-01\<close> has the start
  date 2099-01-01 stored.
\<close>

theorem future_start_date_is_stored:
  "let a = run future_date_run initial_state
   in reachable a \<and> start_dates (app_bot a) 7 = Some (Some ''2099-01-01'')
      \<and> strptime_ymd ''2099-01-01'' = Some \<lparr>year = 2099, month = 1, day = 1\<rparr>
      \<and> date_less (date_of example_now) \<lparr>year = 2099, month = 1, day = 1\<rparr>"
  unfolding Let_def
  by (simp add: future_date_run_start_date date_examples reachable_run reachable_initial)

subsection \<open>The calendar\<close>

text \<open>
  The ordinal of a date grows by one from each day to the next, so the difference of two
  ordinals, which is what the subtraction of two dates gives, is the number of calendar
  days from one date to the other.
\<close>

lemma div_step:
  fixes y k :: int
  assumes k: "0 < k"
  shows "y div k = (y - 1) div k + (if y mod k = 0 then 1 else 0)"
proof (cases "y mod k = 0")
  case True
  have y: "y = k * (y div k)"
    using True mult_div_mod_eq [of k y] by simp
  have "y - 1 = k * (y div k - 1) + (k - 1)"
    by (subst y) (simp add: algebra_simps)
  then have "(y - 1) div k = y div k - 1"
    by (rule int_div_pos_eq) (use k in simp_all)
  with True show ?thesis by simp
next
  case False
  have r: "0 \<le> y mod k" "y mod k < k"
    using k by simp_all
  have "y - 1 = k * (y div k) + (y mod k - 1)"
    using mult_div_mod_eq [of k y] by simp
  then have "(y - 1) div k = y div k"
    by (rule int_div_pos_eq) (use False r in simp_all)
  with False show ?thesis by simp
qed

lemma leap_mods:
  fixes y :: int
  shows "y mod 400 = 0 \<Longrightarrow> y mod 100 = 0" "y mod 100 = 0 \<Longrightarrow> y mod 4 = 0"
proof -
  have "y mod 100 = y mod 400 mod 100" "y mod 4 = y mod 100 mod 4"
    by (simp_all add: mod_mod_cancel)
  then show "y mod 400 = 0 \<Longrightarrow> y mod 100 = 0" "y mod 100 = 0 \<Longrightarrow> y mod 4 = 0"
    by simp_all
qed

lemma days_before_year_Suc:
  "days_before_year (y + 1) = days_before_year y + (if is_leap y then 366 else 365)"
proof -
  define a b c where "a = (y - 1) div 4" and "b = (y - 1) div 100" and "c = (y - 1) div 400"
  have d: "y div 4 = a + (if y mod 4 = 0 then 1 else 0)"
       "y div 100 = b + (if y mod 100 = 0 then 1 else 0)"
       "y div 400 = c + (if y mod 400 = 0 then 1 else 0)"
    unfolding a_def b_def c_def by (rule div_step, simp)+
  have e: "days_before_year (y + 1) = y * 365 + y div 4 - y div 100 + y div 400"
    and f: "days_before_year y = (y - 1) * 365 + a - b + c"
    by (simp_all add: days_before_year_def a_def b_def c_def)
  consider "y mod 400 = 0" | "y mod 400 \<noteq> 0" "y mod 100 = 0"
    | "y mod 100 \<noteq> 0" "y mod 4 = 0" | "y mod 4 \<noteq> 0"
    by blast
  then show ?thesis
  proof cases
    case 1
    with leap_mods [of y] have "y mod 100 = 0" "y mod 4 = 0" by simp_all
    with 1 show ?thesis unfolding e f d is_leap_def by simp
  next
    case 2
    with leap_mods [of y] have "y mod 4 = 0" by simp
    with 2 show ?thesis unfolding e f d is_leap_def by simp
  next
    case 3
    with leap_mods [of y] have "y mod 400 \<noteq> 0" by auto
    with 3 show ?thesis unfolding e f d is_leap_def by simp
  next
    case 4
    with leap_mods [of y] have "y mod 100 \<noteq> 0" "y mod 400 \<noteq> 0" by auto
    with 4 show ?thesis unfolding e f d is_leap_def by simp
  qed
qed


lemma month_cases:
  fixes m :: int
  assumes "1 \<le> m" "m \<le> 12"
  obtains "m = 1" | "m = 2" | "m = 3" | "m = 4" | "m = 5" | "m = 6"
    | "m = 7" | "m = 8" | "m = 9" | "m = 10" | "m = 11" | "m = 12"
proof -
  from assms have "m = 1 \<or> m = 2 \<or> m = 3 \<or> m = 4 \<or> m = 5 \<or> m = 6
    \<or> m = 7 \<or> m = 8 \<or> m = 9 \<or> m = 10 \<or> m = 11 \<or> m = 12"
    by arith
  then show thesis
    by (elim disjE) (rule that, assumption)+
qed

lemma days_in_month_bounds: "28 \<le> days_in_month y m" "days_in_month y m \<le> 31"
  by (simp_all add: days_in_month_def)

lemma days_before_month_1 [simp]: "days_before_month y 1 = 0"
  by (simp add: days_before_month_def days_before_month_table_def)

lemma days_before_month_next:
  assumes "1 \<le> m" "m < 12"
  shows "days_before_month y (m + 1) = days_before_month y m + days_in_month y m"
proof -
  from assms have "1 \<le> m" "m \<le> 12" by simp_all
  then show ?thesis
    using assms(2)
    by (cases m rule: month_cases)
       (simp_all add: days_before_month_def days_before_month_table_def days_in_month_def)
qed

lemma days_before_month_12:
  "days_before_month y 12 + 31 = (if is_leap y then 366 else 365)"
  by (simp add: days_before_month_def days_before_month_table_def)

lemma days_before_month_mono:
  assumes "1 \<le> m" "m \<le> m'" "m' \<le> 12"
  shows "days_before_month y m \<le> days_before_month y m'"
  using assms(2,1,3)
proof (induction m' rule: int_ge_induct)
  case base
  show ?case by simp
next
  case (step i)
  then have "days_before_month y (i + 1) = days_before_month y i + days_in_month y i"
    by (intro days_before_month_next) simp_all
  with step days_in_month_bounds(1) [of y i] show ?case by simp
qed

lemma days_before_year_mono: "y \<le> y' \<Longrightarrow> days_before_year y \<le> days_before_year y'"
proof (induction y' rule: int_ge_induct)
  case base
  show ?case by simp
next
  case (step i)
  then show ?case by (simp add: days_before_year_Suc)
qed

lemma toordinal_bounds:
  assumes "valid_date d"
  shows "days_before_year (year d) < toordinal d"
    and "toordinal d \<le> days_before_year (year d + 1)"
proof -
  from assms have m: "1 \<le> month d" "month d \<le> 12" and dd: "1 \<le> day d"
    "day d \<le> days_in_month (year d) (month d)"
    by (simp_all add: valid_date_def)
  have "0 \<le> days_before_month (year d) (month d)"
    using days_before_month_mono [of 1 "month d" "year d"] m by simp
  with dd show "days_before_year (year d) < toordinal d"
    by (simp add: toordinal_def)
  have "days_before_month (year d) (month d) + day d
          \<le> days_before_month (year d) 12 + 31"
  proof (cases "month d = 12")
    case True
    with dd show ?thesis by (simp add: days_in_month_def)
  next
    case False
    with m have lt: "month d < 12" by simp
    have "days_before_month (year d) (month d) + day d \<le> days_before_month (year d) (month d + 1)"
      using dd by (simp add: days_before_month_next [OF m(1) lt])
    also have "\<dots> \<le> days_before_month (year d) 12"
      using m lt by (intro days_before_month_mono) simp_all
    finally show ?thesis by simp
  qed
  then show "toordinal d \<le> days_before_year (year d + 1)"
    by (simp add: toordinal_def days_before_year_Suc days_before_month_12 split: if_splits)
qed

lemma date_less_toordinal:
  assumes "valid_date a" "valid_date b" "date_less a b"
  shows "toordinal a < toordinal b"
proof -
  from assms(1) have ma: "1 \<le> month a" "month a \<le> 12" and da: "1 \<le> day a"
    "day a \<le> days_in_month (year a) (month a)"
    by (simp_all add: valid_date_def)
  from assms(2) have mb: "1 \<le> month b" "month b \<le> 12" and db: "1 \<le> day b"
    by (simp_all add: valid_date_def)
  consider "year a < year b" | "year a = year b" "month a < month b"
    | "year a = year b" "month a = month b" "day a < day b"
    using assms(3) by (auto simp: date_less_def)
  then show ?thesis
  proof cases
    case 1
    have "toordinal a \<le> days_before_year (year a + 1)"
      using assms(1) by (rule toordinal_bounds)
    also have "\<dots> \<le> days_before_year (year b)"
      using 1 by (intro days_before_year_mono) simp
    also have "\<dots> < toordinal b"
      using assms(2) by (rule toordinal_bounds)
    finally show ?thesis .
  next
    case 2
    have lt: "month a < 12" using 2 mb by simp
    have "days_before_month (year a) (month a) + day a
            \<le> days_before_month (year a) (month a + 1)"
      using da by (simp add: days_before_month_next [OF ma(1) lt])
    also have "\<dots> \<le> days_before_month (year a) (month b)"
      using 2 ma mb by (intro days_before_month_mono) simp_all
    finally show ?thesis
      using 2 db by (simp add: toordinal_def)
  next
    case 3
    then show ?thesis by (simp add: toordinal_def)
  qed
qed

lemma date_trichotomy: "date_less a b \<or> date_eq a b \<or> date_less b a"
  by (auto simp: date_less_def date_eq_def)

lemma toordinal_inj:
  assumes "valid_date a" "valid_date b" "toordinal a = toordinal b"
  shows "date_eq a b"
  using date_trichotomy [of a b] date_less_toordinal [OF assms(1,2)]
    date_less_toordinal [OF assms(2,1)] assms(3)
  by auto

lemma date_eq_iff: "date_eq a b = (a = b)" for a b :: date
  by (cases a; cases b) (auto simp: date_eq_def)

lemma toordinal_next_day:
  assumes "valid_date d"
  shows "toordinal (next_day d) = toordinal d + 1"
proof -
  from assms have m: "1 \<le> month d" "month d \<le> 12" and dd: "1 \<le> day d"
    "day d \<le> days_in_month (year d) (month d)"
    by (simp_all add: valid_date_def)
  consider "day d < days_in_month (year d) (month d)"
    | "day d = days_in_month (year d) (month d)" "month d < 12"
    | "day d = days_in_month (year d) (month d)" "month d = 12"
    using m dd by linarith
  then show ?thesis
  proof cases
    case 1
    then show ?thesis by (simp add: next_day_def toordinal_def)
  next
    case 2
    then show ?thesis
      by (simp add: next_day_def toordinal_def days_before_month_next [OF m(1)])
  next
    case 3
    then have "day d = 31" by (simp add: days_in_month_def)
    with 3 show ?thesis
      using days_before_month_12 [of "year d"]
      by (simp add: next_day_def toordinal_def days_before_year_Suc split: if_splits)
  qed
qed

lemma valid_next_day:
  assumes "valid_date d" "year d < 9999 \<or> month d < 12 \<or> day d < 31"
  shows "valid_date (next_day d)"
proof -
  have "1 \<le> days_in_month y m" for y m
    using days_in_month_bounds(1) [of y m] by simp
  moreover have "days_in_month y 12 = 31" for y
    by (simp add: days_in_month_def)
  ultimately show ?thesis
    using assms by (auto simp: valid_date_def next_day_def)
qed

lemma last_day_toordinal:
  "toordinal \<lparr>year = 9999, month = 12, day = 31\<rparr> = days_before_year 10000"
  using days_before_month_12 [of 9999] days_before_year_Suc [of 9999]
  by (simp add: toordinal_def split: if_splits)

lemma toordinal_le_last:
  assumes "valid_date d"
  shows "toordinal d \<le> days_before_year 10000"
proof -
  have "toordinal d \<le> days_before_year (year d + 1)"
    using assms by (rule toordinal_bounds)
  also have "\<dots> \<le> days_before_year 10000"
    using assms by (intro days_before_year_mono) (simp add: valid_date_def)
  finally show ?thesis .
qed

lemma not_last_day:
  assumes "valid_date a" "valid_date b" "toordinal a < toordinal b"
  shows "year a < 9999 \<or> month a < 12 \<or> day a < 31"
proof (rule ccontr)
  assume "\<not> (year a < 9999 \<or> month a < 12 \<or> day a < 31)"
  with assms(1) have "year a = 9999" "month a = 12" "day a = 31"
    by (auto simp: valid_date_def days_in_month_def split: if_splits)
  then have "toordinal a = days_before_year 10000"
    using days_before_month_12 [of 9999] days_before_year_Suc [of 9999]
    by (simp add: toordinal_def split: if_splits)
  with toordinal_le_last [OF assms(2)] assms(3) show False by simp
qed

lemma calendar_steps:
  fixes a b :: date
  assumes "valid_date a" "valid_date b" "toordinal a \<le> toordinal b"
  shows "(next_day ^^ nat (toordinal b - toordinal a)) a = b"
  using assms
proof (induction "nat (toordinal b - toordinal a)" arbitrary: a)
  case 0
  then have "toordinal a = toordinal b" by simp
  with 0 have "date_eq a b" by (intro toordinal_inj)
  with 0 show ?case by (simp add: date_eq_iff)
next
  case (Suc k)
  then have lt: "toordinal a < toordinal b" by linarith
  have v: "valid_date (next_day a)"
    using Suc.prems(1) not_last_day [OF Suc.prems(1,2) lt] by (rule valid_next_day)
  have o: "toordinal (next_day a) = toordinal a + 1"
    using Suc.prems(1) by (rule toordinal_next_day)
  have k: "k = nat (toordinal b - toordinal (next_day a))"
    using Suc.hyps(2) o by linarith
  have "(next_day ^^ nat (toordinal b - toordinal (next_day a))) (next_day a) = b"
    using k v Suc.prems(2) lt o by (intro Suc.hyps(1)) simp_all
  then have "(next_day ^^ k) (next_day a) = b"
    using k by simp
  then show ?case
    using Suc.hyps(2) by (simp add: funpow_swap1 flip: Suc.hyps(2))
qed

lemma year_next_day: "year d \<le> year (next_day d)"
  by (simp add: next_day_def)

lemma year_funpow_next_day: "year d \<le> year ((next_day ^^ k) d)"
proof (induction k)
  case 0
  show ?case by simp
next
  case (Suc k)
  have "year ((next_day ^^ k) d) \<le> year (next_day ((next_day ^^ k) d))"
    by (rule year_next_day)
  with Suc show ?case by simp
qed

lemma calendar_steps_unique:
  fixes a b :: date
  assumes "valid_date a" "valid_date b" "(next_day ^^ k) a = b"
  shows "int k = toordinal b - toordinal a"
  using assms
proof (induction k arbitrary: a)
  case 0
  then show ?case by simp
next
  case (Suc k)
  from Suc.prems(3) have st: "(next_day ^^ k) (next_day a) = b"
    by (simp add: funpow_swap1)
  have "year a < 9999 \<or> month a < 12 \<or> day a < 31"
  proof (rule ccontr)
    assume "\<not> (year a < 9999 \<or> month a < 12 \<or> day a < 31)"
    with Suc.prems(1) have "year a = 9999" "month a = 12" "day a = 31"
      by (auto simp: valid_date_def days_in_month_def split: if_splits)
    then have "year (next_day a) = 10000"
      by (simp add: next_day_def days_in_month_def)
    with year_funpow_next_day [of "next_day a" k] st have "10000 \<le> year b" by simp
    with Suc.prems(2) show False by (simp add: valid_date_def)
  qed
  with Suc.prems(1) have v: "valid_date (next_day a)" by (rule valid_next_day)
  from Suc.IH [OF v Suc.prems(2) st] toordinal_next_day [OF Suc.prems(1)]
  show ?case by simp
qed

lemma not_date_less_toordinal:
  assumes "valid_date a" "valid_date b" "\<not> date_less b a"
  shows "toordinal a \<le> toordinal b"
proof -
  from date_trichotomy [of a b] assms(3) have "date_less a b \<or> date_eq a b" by blast
  then show ?thesis
  proof
    assume "date_less a b"
    with assms(1,2) show ?thesis by (intro less_imp_le date_less_toordinal)
  next
    assume "date_eq a b"
    then show ?thesis by (simp add: date_eq_def toordinal_def)
  qed
qed

lemma valid_end_of_year: "valid_date d \<Longrightarrow> valid_date (end_of_year d)"
  by (simp add: valid_date_def end_of_year_def days_in_month_def)

lemma end_of_year_not_before:
  assumes "valid_date d"
  shows "\<not> date_less (end_of_year d) d"
  using assms days_in_month_bounds(2) [of "year d" "month d"]
  by (auto simp: date_less_def end_of_year_def valid_date_def)

subsection \<open>Forecast\<close>

lemma calculate_forecast_eq:
  "calculate_forecast today D =
     (if float_le_zero D then Fin 0
      else float_mul_int D (days_between (end_of_year today) today))"
  by (simp add: calculate_forecast_def end_of_year_def Let_def)

lemma example_dates:
  "valid_date \<lparr>year = 2024, month = 3, day = 5\<rparr>"
  "valid_date \<lparr>year = 2024, month = 12, day = 31\<rparr>"
  "valid_date \<lparr>year = 2024, month = 1, day = 1\<rparr>"
  "valid_date \<lparr>year = 2023, month = 1, day = 1\<rparr>"
  "days_between \<lparr>year = 2024, month = 12, day = 31\<rparr> \<lparr>year = 2024, month = 3, day = 5\<rparr> = 301"
  "is_leap 2024" "\<not> is_leap 2023"
  by code_simp+

lemma calculate_forecast_values:
  "r \<le> 0 \<Longrightarrow> calculate_forecast today (Fin r) = Fin 0"
  "calculate_forecast today NInf = Fin 0"
  "0 < r \<Longrightarrow> calculate_forecast today (Fin r)
                 = Fin (r * real_of_int (days_between (end_of_year today) today))"
  "calculate_forecast today PInf =
     (if 0 < days_between (end_of_year today) today then PInf
      else if days_between (end_of_year today) today < 0 then NInf else NaN)"
  "calculate_forecast today NaN = NaN"
  by (simp_all add: calculate_forecast_eq float_mul_int_def float_of_int_def)

lemma smoke_one_logs:
  assumes "users s uid = Some row" "0 < stock row"
  shows "usage (fst (menu_callback e uid ''SMOKE_ONE'' s)) =
           usage s @ [\<lparr>row_id = usage_seq s + 1, user_id = uid,
                       timestamp = datetime_isoformat (log_now e), quantity = 1,
                       cost = sql_bind_real (unit_price row)\<rparr>]"
  using assms by (simp add: menu_callback_def Let_def get_user_def)

lemma py_float_inf: "py_float (strip ''inf'') = Some PInf"
  by code_simp

text \<open>
  Claim C2, as amended. For every valid date \<open>today\<close> the clock can give,
  \<^verbatim>\<open>calculate_forecast(D)\<close> is 0 when \<open>D \<le> 0\<close> (a number that is not positive, or
  minus infinity) and the float product \<open>D * remaining_days\<close> otherwise: for a
  positive number \<open>r\<close> it is \<open>r * remaining_days\<close>, for plus infinity it is plus
  infinity while days remain and NaN when none remains, for a NaN it is NaN.
  \<open>remaining_days\<close>, the difference of the ordinals of December 31 and of today, is
  the count of calendar days after today up to and including December 31 of the year of
  today: it is the one number of steps to the next day that lead from today to December
  31. So it is 0 on December 31, where the forecast of every finite cost is 0, and on
  January 1 it is 365 in a leap year and 364 in any other year.
\<close>

theorem calculate_forecast_counts_remaining_days:
  assumes "valid_date today"
  shows "calculate_forecast today D =
           (if float_le_zero D then Fin 0
            else float_mul_int D (days_between (end_of_year today) today))
         \<and> (\<forall>r. r \<le> 0 \<longrightarrow> calculate_forecast today (Fin r) = Fin 0)
         \<and> calculate_forecast today NInf = Fin 0
         \<and> (\<forall>r. 0 < r \<longrightarrow> calculate_forecast today (Fin r)
                              = Fin (r * real_of_int (days_between (end_of_year today) today)))
         \<and> calculate_forecast today PInf
              = (if 0 < days_between (end_of_year today) today then PInf else NaN)
         \<and> calculate_forecast today NaN = NaN
         \<and> 0 \<le> days_between (end_of_year today) today
         \<and> (next_day ^^ nat (days_between (end_of_year today) today)) today = end_of_year today
         \<and> (\<forall>k. (next_day ^^ k) today = end_of_year today
                \<longrightarrow> int k = days_between (end_of_year today) today)
         \<and> (today = end_of_year today
                \<longrightarrow> days_between (end_of_year today) today = 0
                    \<and> (\<forall>r. calculate_forecast today (Fin r) = Fin 0)
                    \<and> calculate_forecast today PInf = NaN)
         \<and> (month today = 1 \<and> day today = 1
                \<longrightarrow> days_between (end_of_year today) today
                      = (if is_leap (year today) then 365 else 364))"
proof -
  let ?n = "days_between (end_of_year today) today"
  note ve = valid_end_of_year [OF assms]
  have le: "toordinal today \<le> toordinal (end_of_year today)"
    using assms ve end_of_year_not_before [OF assms] by (rule not_date_less_toordinal)
  have 1: "0 \<le> ?n"
    using le by (simp add: days_between_def)
  have 2: "(next_day ^^ nat ?n) today = end_of_year today"
    unfolding days_between_def using assms ve le by (rule calendar_steps)
  have 3: "\<forall>k. (next_day ^^ k) today = end_of_year today \<longrightarrow> int k = ?n"
    unfolding days_between_def using assms ve by (auto dest: calendar_steps_unique)
  have 4: "today = end_of_year today \<longrightarrow>
             ?n = 0 \<and> (\<forall>r. calculate_forecast today (Fin r) = Fin 0)
             \<and> calculate_forecast today PInf = NaN"
  proof
    assume e: "today = end_of_year today"
    have z: "?n = 0"
      using e by (simp add: days_between_def)
    show "?n = 0 \<and> (\<forall>r. calculate_forecast today (Fin r) = Fin 0)
             \<and> calculate_forecast today PInf = NaN"
      by (simp add: z calculate_forecast_eq float_mul_int_def float_of_int_def)
  qed
  have 5: "month today = 1 \<and> day today = 1 \<longrightarrow> ?n = (if is_leap (year today) then 365 else 364)"
    using days_before_month_12 [of "year today"]
    by (simp add: days_between_def toordinal_def end_of_year_def split: if_splits)
  have 6: "calculate_forecast today PInf = (if 0 < ?n then PInf else NaN)"
    using 1 by (simp add: calculate_forecast_values)
  have 7: "\<forall>r. r \<le> 0 \<longrightarrow> calculate_forecast today (Fin r) = Fin 0"
    and 8: "\<forall>r. 0 < r \<longrightarrow> calculate_forecast today (Fin r) = Fin (r * real_of_int ?n)"
    by (simp_all add: calculate_forecast_values)
  show ?thesis
    by (intro conjI)
       (rule calculate_forecast_eq, rule 7, rule calculate_forecast_values(2), rule 8, rule 6,
        rule calculate_forecast_values(5), rule 1, rule 2, rule 3, rule 4, rule 5)
qed

theorem calculate_forecast_witness:
  "calculate_forecast \<lparr>year = 2024, month = 3, day = 5\<rparr> (Fin (3 / 2)) = Fin (903 / 2)
   \<and> calculate_forecast \<lparr>year = 2024, month = 3, day = 5\<rparr> (Fin 0) = Fin 0
   \<and> calculate_forecast \<lparr>year = 2024, month = 3, day = 5\<rparr> (Fin (- 2)) = Fin 0
   \<and> calculate_forecast \<lparr>year = 2024, month = 3, day = 5\<rparr> NInf = Fin 0
   \<and> calculate_forecast \<lparr>year = 2024, month = 3, day = 5\<rparr> PInf = PInf
   \<and> (next_day ^^ 301) \<lparr>year = 2024, month = 3, day = 5\<rparr> = \<lparr>year = 2024, month = 12, day = 31\<rparr>
   \<and> calculate_forecast \<lparr>year = 2024, month = 12, day = 31\<rparr> (Fin (3 / 2)) = Fin 0
   \<and> calculate_forecast \<lparr>year = 2024, month = 12, day = 31\<rparr> PInf = NaN
   \<and> days_between \<lparr>year = 2024, month = 12, day = 31\<rparr> \<lparr>year = 2024, month = 1, day = 1\<rparr> = 365
   \<and> days_between \<lparr>year = 2023, month = 12, day = 31\<rparr> \<lparr>year = 2023, month = 1, day = 1\<rparr> = 364"
proof -
  let ?d = "\<lparr>year = 2024, month = 3, day = 5\<rparr>"
  let ?e = "\<lparr>year = 2024, month = 12, day = 31\<rparr>"
  let ?j = "\<lparr>year = 2024, month = 1, day = 1\<rparr>"
  let ?j' = "\<lparr>year = 2023, month = 1, day = 1\<rparr>"
  have e: "end_of_year ?d = ?e" "end_of_year ?e = ?e" "end_of_year ?j = ?e"
    "end_of_year ?j' = \<lparr>year = 2023, month = 12, day = 31\<rparr>"
    by (simp_all add: end_of_year_def)
  note t = calculate_forecast_counts_remaining_days
  have d1: "calculate_forecast ?d (Fin (3 / 2)) = Fin (903 / 2)"
    using t [OF example_dates(1), of "Fin 0"] unfolding e
    by (simp add: example_dates)
  have d2: "calculate_forecast ?d (Fin 0) = Fin 0"
    and d3: "calculate_forecast ?d (Fin (- 2)) = Fin 0"
    and d4: "calculate_forecast ?d NInf = Fin 0"
    and d5: "calculate_forecast ?d PInf = PInf"
    and d6: "(next_day ^^ 301) ?d = ?e"
    using t [OF example_dates(1), of "Fin 0"] unfolding e
    by (simp_all add: example_dates)
  have e1: "calculate_forecast ?e (Fin (3 / 2)) = Fin 0"
    and e2: "calculate_forecast ?e PInf = NaN"
    using t [OF example_dates(2), of "Fin 0"] unfolding e
    by simp_all
  have j1: "days_between ?e ?j = 365"
    using t [OF example_dates(3), of "Fin 0"] unfolding e
    by (simp add: example_dates)
  have j2: "days_between \<lparr>year = 2023, month = 12, day = 31\<rparr> ?j' = 364"
    using t [OF example_dates(4), of "Fin 0"] unfolding e
    by (simp add: example_dates)
  from d1 d2 d3 d4 d5 d6 e1 e2 j1 j2 show ?thesis
    by (intro conjI)
qed

text \<open>
  The claim C2 as it was stated says that the forecast on December 31 is 0 for every
  \<open>D\<close>. It is not for an infinite daily cost: \<^verbatim>\<open>inf * 0\<close> is NaN. Such a cost
  arises in the bot: \<^verbatim>\<open>float\<close> reads the text \<^verbatim>\<open>inf\<close> as plus infinity, which
  passes both price checks; \<^verbatim>\<open>SMOKE_ONE\<close> then logs the unit price as the cost of
  the event, and the sum of the day is infinite.
\<close>

theorem forecast_of_infinite_cost_on_december_31:
  "py_float (strip ''inf'') = Some PInf \<and> float_gt_zero PInf
   \<and> map cost (usage (fst (menu_callback example_env 7 ''SMOKE_ONE''
                             (example_state (example_row\<lparr>unit_price := Some PInf\<rparr>) Map.empty))))
       = [Some PInf]
   \<and> ifnull_zero (sql_sum_real [Some PInf]) = PInf
   \<and> valid_date \<lparr>year = 2024, month = 12, day = 31\<rparr>
   \<and> calculate_forecast \<lparr>year = 2024, month = 12, day = 31\<rparr> PInf = NaN
   \<and> calculate_forecast \<lparr>year = 2024, month = 12, day = 31\<rparr> PInf \<noteq> Fin 0"
proof -
  let ?s = "example_state (example_row\<lparr>unit_price := Some PInf\<rparr>) Map.empty"
  have u: "users ?s 7 = Some (example_row\<lparr>unit_price := Some PInf\<rparr>)"
    "0 < stock (example_row\<lparr>unit_price := Some PInf\<rparr>)"
    by (simp_all add: example_row_def)
  have l: "map cost (usage (fst (menu_callback example_env 7 ''SMOKE_ONE'' ?s))) = [Some PInf]"
    unfolding smoke_one_logs [OF u] by simp
  have z: "days_between (end_of_year \<lparr>year = 2024, month = 12, day = 31\<rparr>)
             \<lparr>year = 2024, month = 12, day = 31\<rparr> = 0"
    by (simp add: end_of_year_def days_between_def)
  have f: "calculate_forecast \<lparr>year = 2024, month = 12, day = 31\<rparr> PInf = NaN"
    by (simp add: calculate_forecast_values z)
  have s: "ifnull_zero (sql_sum_real [Some PInf]) = PInf"
    by (simp add: ifnull_zero_def sql_sum_real_def)
  from py_float_inf l s example_dates(2) f show ?thesis
    by simp
qed

subsection \<open>Theoretical spend since the start date\<close>

lemma strptime_ymd_empty [simp]: "strptime_ymd [] = None"
  by (simp add: strptime_ymd_def)

text \<open>
  Claim C3. \<^verbatim>\<open>theoretical_spent_since_start\<close> is 0.0 when the start date is absent
  (or empty) or is not a date in the form \<^verbatim>\<open>YYYY-MM-DD\<close>. When it is the date
  \<open>start_dt\<close> and \<open>start_dt \<le> today\<close>, the result is the daily cost of the aggregates
  times \<open>(today - start_dt).days + 1\<close>, where the difference counts the calendar days
  from the start date to today; for the start date today it is the daily cost times 1.
  When the start date is after today, the result is 0.0, with no error.
\<close>

theorem theoretical_spent_since_start_cases:
  "((start_date_str = None \<or> (\<exists>t. start_date_str = Some t \<and> strptime_ymd t = None))
      \<longrightarrow> theoretical_spent_since_start s now today uid start_date_str = Inr (Fin 0))
   \<and> (start_date_str = Some text \<and> strptime_ymd text = Some start_dt
        \<and> get_aggregates s now uid = Inr aggr
      \<longrightarrow> (date_less today start_dt
             \<longrightarrow> theoretical_spent_since_start s now today uid start_date_str = Inr (Fin 0))
          \<and> (\<not> date_less today start_dt
             \<longrightarrow> theoretical_spent_since_start s now today uid start_date_str
                   = Inr (float_mul_int (snd (daily aggr)) (days_between today start_dt + 1)))
          \<and> (\<not> date_less today start_dt \<and> valid_date today
             \<longrightarrow> 0 \<le> days_between today start_dt
                 \<and> (next_day ^^ nat (days_between today start_dt)) start_dt = today)
          \<and> (start_dt = today
             \<longrightarrow> theoretical_spent_since_start s now today uid start_date_str
                   = Inr (float_mul_int (snd (daily aggr)) 1)))"
proof -
  let ?res = "theoretical_spent_since_start s now today uid start_date_str"
  have A: "?res = Inr (Fin 0)"
    if "start_date_str = None \<or> (\<exists>t. start_date_str = Some t \<and> strptime_ymd t = None)"
    using that by (auto simp: theoretical_spent_since_start_def)
  have B: "(date_less today start_dt \<longrightarrow> ?res = Inr (Fin 0))
          \<and> (\<not> date_less today start_dt
             \<longrightarrow> ?res = Inr (float_mul_int (snd (daily aggr)) (days_between today start_dt + 1)))
          \<and> (\<not> date_less today start_dt \<and> valid_date today
             \<longrightarrow> 0 \<le> days_between today start_dt
                 \<and> (next_day ^^ nat (days_between today start_dt)) start_dt = today)
          \<and> (start_dt = today \<longrightarrow> ?res = Inr (float_mul_int (snd (daily aggr)) 1))"
    if h: "start_date_str = Some text \<and> strptime_ymd text = Some start_dt
        \<and> get_aggregates s now uid = Inr aggr"
  proof -
    from h have ne: "text \<noteq> []" by auto
    have r: "?res = (if date_less today start_dt then Inr (Fin 0)
                     else Inr (float_mul_int (snd (daily aggr)) (days_between today start_dt + 1)))"
      using h ne by (simp add: theoretical_spent_since_start_def)
    have v: "valid_date start_dt"
      using h by (intro strptime_ymd_valid [of "text"]) simp
    have c: "0 \<le> days_between today start_dt
             \<and> (next_day ^^ nat (days_between today start_dt)) start_dt = today"
      if a: "\<not> date_less today start_dt \<and> valid_date today"
    proof -
      have le: "toordinal start_dt \<le> toordinal today"
        using v a by (intro not_date_less_toordinal) simp_all
      then have "0 \<le> days_between today start_dt"
        by (simp add: days_between_def)
      moreover have "(next_day ^^ nat (days_between today start_dt)) start_dt = today"
        unfolding days_between_def using v a le by (intro calendar_steps) simp_all
      ultimately show ?thesis by simp
    qed
    have e: "?res = Inr (float_mul_int (snd (daily aggr)) 1)" if "start_dt = today"
    proof -
      have "\<not> date_less today today" by (simp add: date_less_def)
      moreover have "days_between today today = 0" by (simp add: days_between_def)
      ultimately show ?thesis using that by (simp add: r)
    qed
    show ?thesis
      using c e by (simp add: r)
  qed
  show ?thesis
    using A B by blast
qed

subsection \<open>Timestamps as texts\<close>

text \<open>
  \<^verbatim>\<open>isoformat\<close> writes every field in a fixed number of digits, and the fraction
  only when it is not zero. So the texts of two valid date-times compare, byte by byte,
  as the date-times do.
\<close>

lemma length_fixed_digits [simp]: "length (fixed_digits w n) = w"
  by (induction w arbitrary: n) simp_all

lemma of_char_digit_char [simp]: "of_char (digit_char n) = (48 + n mod 10 :: nat)"
proof -
  have "48 + n mod 10 < 256"
    using mod_less_divisor [of 10 n] by linarith
  then show ?thesis
    by (simp add: digit_char_def)
qed

lemma digit_char_eq_iff [simp]: "digit_char a = digit_char b \<longleftrightarrow> a mod 10 = b mod 10"
proof
  assume "digit_char a = digit_char b"
  then have "(of_char (digit_char a) :: nat) = of_char (digit_char b)" by simp
  then show "a mod 10 = b mod 10" by simp
next
  assume "a mod 10 = b mod 10"
  then show "digit_char a = digit_char b" by (simp add: digit_char_def)
qed

lemma digit_char_0 [simp]: "digit_char 0 = CHR ''0''"
  by code_simp

lemma fixed_digits_0: "fixed_digits w 0 = replicate w CHR ''0''"
  by (induction w) (simp_all add: replicate_append_same)

lemma str_nat_small: "n < 10 \<Longrightarrow> str_nat n = [digit_char n]"
  by simp

lemma str_nat_large: "\<not> n < 10 \<Longrightarrow> str_nat n = str_nat (n div 10) @ [digit_char n]"
  by simp

declare str_nat.simps [simp del]

lemma str_nat_fixed:
  "0 < w \<Longrightarrow> n < 10 ^ w \<Longrightarrow>
   length (str_nat n) \<le> w \<and> replicate (w - length (str_nat n)) CHR ''0'' @ str_nat n = fixed_digits w n"
proof (induction w arbitrary: n)
  case 0
  then show ?case by simp
next
  case (Suc w)
  show ?case
  proof (cases "n < 10")
    case True
    then have "n div 10 = 0" by simp
    with True show ?thesis
      by (simp add: str_nat_small fixed_digits_0)
  next
    case False
    then have w: "0 < w"
      using Suc.prems(2) by (cases w) simp_all
    have "n div 10 < 10 ^ w"
      using Suc.prems(2) by (simp add: less_mult_imp_div_less mult.commute)
    from Suc.IH [OF w this] False show ?thesis
      by (simp add: str_nat_large Suc_diff_le)
  qed
qed

lemma zero_pad_fixed:
  assumes "0 \<le> i" "i < 10 ^ w" "0 < w"
  shows "zero_pad w i = fixed_digits w (nat i)"
proof -
  have "nat i < 10 ^ w"
    using assms(1,2) by (simp add: nat_less_iff)
  from str_nat_fixed [OF assms(3) this] assms(1) show ?thesis
    by (simp add: zero_pad_def)
qed

lemma text_le_append:
  "length p = length q \<Longrightarrow>
   text_le (p @ x) (q @ y) = (text_lt p q \<or> (p = q \<and> text_le x y))"
  by (induction p q rule: list_induct2) auto

lemma text_lt_append:
  "length p = length q \<Longrightarrow>
   text_lt (p @ x) (q @ y) = (text_lt p q \<or> (p = q \<and> text_lt x y))"
  by (induction p q rule: list_induct2) auto

lemma text_lt_irrefl [simp]: "\<not> text_lt p p"
  by (induction p) simp_all

lemma div_mod_less_iff:
  fixes a b :: nat
  shows "(a div 10 < b div 10 \<or> (a div 10 = b div 10 \<and> a mod 10 < b mod 10)) = (a < b)"
proof -
  have "a = 10 * (a div 10) + a mod 10" "b = 10 * (b div 10) + b mod 10"
    by simp_all
  moreover have "a mod 10 < 10" "b mod 10 < 10" by simp_all
  ultimately show ?thesis by linarith
qed

lemma div_mod_eq_iff:
  fixes a b :: nat
  shows "(a div 10 = b div 10 \<and> a mod 10 = b mod 10) = (a = b)"
  by (metis div_mult_mod_eq)

lemma ten_digits_eq:
  fixes x y p q :: nat
  assumes "p < 10" "q < 10"
  shows "(x = y \<and> p = q) = (10 * x + p = 10 * y + q)"
proof
  assume "x = y \<and> p = q"
  then show "10 * x + p = 10 * y + q" by simp
next
  assume e: "10 * x + p = 10 * y + q"
  have "(10 * x + p) div 10 = x" "(10 * y + q) div 10 = y"
       "(10 * x + p) mod 10 = p" "(10 * y + q) mod 10 = q"
    using assms by simp_all
  with e show "x = y \<and> p = q" by metis
qed

lemma fixed_digits_order:
  "text_lt (fixed_digits w a) (fixed_digits w b) = (a mod 10 ^ w < b mod 10 ^ w)"
  "(fixed_digits w a = fixed_digits w b) = (a mod 10 ^ w = b mod 10 ^ w)"
proof (induction w arbitrary: a b)
  case 0
  { case 1 show ?case by simp }
  { case 2 show ?case by simp }
next
  case (Suc w)
  have m: "x mod 10 ^ Suc w = 10 * (x div 10 mod 10 ^ w) + x mod 10" for x :: nat
    by (simp add: mod_mult2_eq)
  have l: "x mod 10 < 10" for x :: nat by simp
  { case 1
    have "text_lt (fixed_digits (Suc w) a) (fixed_digits (Suc w) b) =
            (a div 10 mod 10 ^ w < b div 10 mod 10 ^ w
             \<or> (a div 10 mod 10 ^ w = b div 10 mod 10 ^ w \<and> a mod 10 < b mod 10))"
      by (simp add: text_lt_append Suc.IH)
    also have "\<dots> = (a mod 10 ^ Suc w < b mod 10 ^ Suc w)"
      unfolding m using l [of a] l [of b] by linarith
    finally show ?case . }
  { case 2
    have "(fixed_digits (Suc w) a = fixed_digits (Suc w) b) =
            (a div 10 mod 10 ^ w = b div 10 mod 10 ^ w \<and> a mod 10 = b mod 10)"
      by (simp add: Suc.IH)
    also have "\<dots> = (a mod 10 ^ Suc w = b mod 10 ^ Suc w)"
      unfolding m using l [of a] l [of b] by (rule ten_digits_eq)
    finally show ?case . }
qed

lemma valid_datetime_bounds:
  assumes "valid_datetime t"
  shows "0 \<le> year t" "year t < 10 ^ 4" "0 \<le> month t" "month t < 10 ^ 2"
    "0 \<le> day t" "day t < 10 ^ 2" "0 \<le> hour t" "hour t < 10 ^ 2"
    "0 \<le> minute t" "minute t < 10 ^ 2" "0 \<le> second t" "second t < 10 ^ 2"
    "0 \<le> microsecond t" "microsecond t < 10 ^ 6"
  using assms days_in_month_bounds(2) [of "year t" "month t"]
  by (simp_all add: valid_datetime_def valid_date_def)

lemma date_isoformat_fixed:
  assumes "0 \<le> year d" "year d < 10 ^ 4" "0 \<le> month d" "month d < 10 ^ 2"
    "0 \<le> day d" "day d < 10 ^ 2"
  shows "date_isoformat d =
           fixed_digits 4 (nat (year d)) @ CHR ''-'' # fixed_digits 2 (nat (month d))
             @ CHR ''-'' # fixed_digits 2 (nat (day d))"
  using assms by (simp add: date_isoformat_def zero_pad_fixed)

lemma datetime_isoformat_fixed:
  assumes "valid_datetime t"
  shows "datetime_isoformat t =
           fixed_digits 4 (nat (year t)) @ CHR ''-'' # fixed_digits 2 (nat (month t))
             @ CHR ''-'' # fixed_digits 2 (nat (day t)) @ CHR ''T'' # fixed_digits 2 (nat (hour t))
             @ CHR '':'' # fixed_digits 2 (nat (minute t))
             @ CHR '':'' # fixed_digits 2 (nat (second t))
             @ (if microsecond t \<noteq> 0 then CHR ''.'' # fixed_digits 6 (nat (microsecond t)) else [])"
  using valid_datetime_bounds [OF assms]
  by (simp add: datetime_isoformat_def date_isoformat_fixed zero_pad_fixed)

lemma datetime_eq_iff:
  fixes a b :: datetime
  shows "(a = b) = (year a = year b \<and> month a = month b \<and> day a = day b \<and> hour a = hour b
                    \<and> minute a = minute b \<and> second a = second b
                    \<and> microsecond a = microsecond b)"
  by (cases a; cases b) auto

lemma nat_mod_small: "0 \<le> i \<Longrightarrow> i < 10 ^ w \<Longrightarrow> nat i mod 10 ^ w = nat i"
  by (simp add: nat_less_iff)

lemma pos_and_less:
  fixes i j :: int
  shows "0 \<le> i \<Longrightarrow> (0 < j \<and> i < j) = (i < j)"
  by auto

lemma fraction_le:
  assumes "0 \<le> ua" "ua < 10 ^ 6" "0 \<le> ub" "ub < 10 ^ 6"
  shows "text_le (if ua \<noteq> 0 then CHR ''.'' # fixed_digits 6 (nat ua) else [])
                 (if ub \<noteq> 0 then CHR ''.'' # fixed_digits 6 (nat ub) else [])
         = (ua \<le> ub)"
proof -
  have "text_le (fixed_digits 6 (nat ua)) (fixed_digits 6 (nat ub)) = (ua \<le> ub)"
    using text_le_append [of "fixed_digits 6 (nat ua)" "fixed_digits 6 (nat ub)" "[]" "[]"] assms
    by (simp add: fixed_digits_order nat_mod_small) linarith
  with assms show ?thesis by auto
qed

lemma datetime_isoformat_le:
  assumes "valid_datetime a" "valid_datetime b"
  shows "text_le (datetime_isoformat a) (datetime_isoformat b) = datetime_le a b"
proof -
  note ba = valid_datetime_bounds [OF assms(1)] and bb = valid_datetime_bounds [OF assms(2)]
  have fr: "text_le (if microsecond a \<noteq> 0 then CHR ''.'' # fixed_digits 6 (nat (microsecond a)) else [])
                 (if microsecond b \<noteq> 0 then CHR ''.'' # fixed_digits 6 (nat (microsecond b)) else [])
         = (microsecond a \<le> microsecond b)"
    using ba bb by (intro fraction_le)
  have "text_le (datetime_isoformat a) (datetime_isoformat b) =
          (year a < year b \<or> (year a = year b \<and>
            (month a < month b \<or> (month a = month b \<and>
              (day a < day b \<or> (day a = day b \<and>
                (hour a < hour b \<or> (hour a = hour b \<and>
                  (minute a < minute b \<or> (minute a = minute b \<and>
                    (second a < second b \<or> (second a = second b \<and>
                       microsecond a \<le> microsecond b))))))))))))"
    unfolding datetime_isoformat_fixed [OF assms(1)] datetime_isoformat_fixed [OF assms(2)]
    using ba bb
    by (simp add: text_le_append text_lt_append fixed_digits_order nat_mod_small fr
             eq_nat_nat_iff pos_and_less del: fixed_digits.simps)
  also have "\<dots> = datetime_le a b"
    by (auto simp: datetime_le_def date_less_def date_eq_def time_less_def datetime_eq_iff)
  finally show ?thesis .
qed

subsection \<open>The windows of the aggregation\<close>

lemma toordinal_prev_day:
  assumes "valid_date d"
  shows "toordinal (prev_day d) = toordinal d - 1"
proof -
  from assms have m: "1 \<le> month d" "month d \<le> 12" and dd: "1 \<le> day d"
    by (simp_all add: valid_date_def)
  consider "1 < day d" | "day d = 1" "1 < month d" | "day d = 1" "month d = 1"
    using m dd by linarith
  then show ?thesis
  proof cases
    case 1
    then show ?thesis by (simp add: prev_day_def toordinal_def)
  next
    case 2
    have "days_before_month (year d) (month d - 1 + 1) =
            days_before_month (year d) (month d - 1) + days_in_month (year d) (month d - 1)"
      using 2 m by (intro days_before_month_next) simp_all
    with 2 show ?thesis by (simp add: prev_day_def toordinal_def)
  next
    case 3
    then show ?thesis
      using days_before_year_Suc [of "year d - 1"] days_before_month_12 [of "year d - 1"]
      by (simp add: prev_day_def toordinal_def split: if_splits)
  qed
qed

lemma valid_prev_day:
  assumes "valid_date d" "1 < toordinal d"
  shows "valid_date (prev_day d)"
proof -
  from assms(1) have y: "1 \<le> year d" "year d \<le> 9999" and m: "1 \<le> month d" "month d \<le> 12"
    and dd: "1 \<le> day d" "day d \<le> days_in_month (year d) (month d)"
    by (simp_all add: valid_date_def)
  consider "1 < day d" | "day d = 1" "1 < month d" | "day d = 1" "month d = 1"
    using m dd by linarith
  then show ?thesis
  proof cases
    case 1
    with y m dd show ?thesis by (simp add: prev_day_def valid_date_def)
  next
    case 2
    with y m days_in_month_bounds(1) [of "year d" "month d - 1"] show ?thesis
      by (simp add: prev_day_def valid_date_def)
  next
    case 3
    have "year d \<noteq> 1"
    proof
      assume "year d = 1"
      with 3 have "toordinal d = 1"
        by (simp add: toordinal_def days_before_year_def)
      with assms(2) show False by simp
    qed
    with 3 y show ?thesis
      by (simp add: prev_day_def valid_date_def days_in_month_def)
  qed
qed

lemma time_prev_day [simp]:
  "hour (prev_day t) = hour t" "minute (prev_day t) = minute t" "second (prev_day t) = second t"
  "microsecond (prev_day t) = microsecond t"
  by (simp_all add: prev_day_def)

lemma days_back:
  assumes "valid_datetime t" "int n < toordinal t"
  shows "valid_datetime ((prev_day ^^ n) t) \<and> toordinal ((prev_day ^^ n) t) = toordinal t - int n
         \<and> same_time_of_day ((prev_day ^^ n) t) t"
  using assms(2)
proof (induction n)
  case 0
  with assms(1) show ?case by (simp add: same_time_of_day_def)
next
  case (Suc n)
  then have ih: "valid_datetime ((prev_day ^^ n) t)"
    "toordinal ((prev_day ^^ n) t) = toordinal t - int n"
    "same_time_of_day ((prev_day ^^ n) t) t"
    by simp_all
  have v: "valid_date ((prev_day ^^ n) t)"
    using ih(1) by (simp add: valid_datetime_def)
  have gt: "1 < toordinal ((prev_day ^^ n) t)"
    using Suc.prems ih(2) by simp
  have "valid_date (prev_day ((prev_day ^^ n) t))"
    using v gt by (rule valid_prev_day)
  moreover have "toordinal (prev_day ((prev_day ^^ n) t)) = toordinal t - int (Suc n)"
    using toordinal_prev_day [OF v] ih(2) by simp
  ultimately show ?case
    using ih(1,3) by (simp add: valid_datetime_def same_time_of_day_def)
qed

lemma minus_days_Some:
  assumes "valid_datetime t" "int n < toordinal t"
  shows "minus_days t n = Some ((prev_day ^^ n) t)"
  using assms(2) by (simp add: minus_days_def)



lemma window_starts:
  assumes "valid_datetime now"
  shows "valid_datetime (midnight now)" "datetime_le (midnight now) now"
    "valid_datetime ((midnight now)\<lparr>day := 1\<rparr>)" "datetime_le ((midnight now)\<lparr>day := 1\<rparr>) now"
    "valid_datetime ((midnight now)\<lparr>month := 1, day := 1\<rparr>)"
    "datetime_le ((midnight now)\<lparr>month := 1, day := 1\<rparr>) now"
proof -
  from assms have b: "1 \<le> month now" "1 \<le> day now" "0 \<le> hour now" "0 \<le> minute now"
    "0 \<le> second now" "0 \<le> microsecond now"
    by (simp_all add: valid_datetime_def valid_date_def)
  have d1: "1 \<le> days_in_month y m" for y m
    using days_in_month_bounds(1) [of y m] by simp
  show "valid_datetime (midnight now)"
    using assms by (simp add: valid_datetime_def valid_date_def midnight_def)
  show "valid_datetime ((midnight now)\<lparr>day := 1\<rparr>)"
    using assms d1 by (simp add: valid_datetime_def valid_date_def midnight_def)
  show "valid_datetime ((midnight now)\<lparr>month := 1, day := 1\<rparr>)"
    using assms d1 by (simp add: valid_datetime_def valid_date_def midnight_def)
  show "datetime_le (midnight now) now"
    using b by (auto simp: datetime_le_def date_less_def date_eq_def time_less_def midnight_def
        datetime_eq_iff)
  show "datetime_le ((midnight now)\<lparr>day := 1\<rparr>) now"
    using b by (auto simp: datetime_le_def date_less_def date_eq_def time_less_def midnight_def
        datetime_eq_iff)
  show "datetime_le ((midnight now)\<lparr>month := 1, day := 1\<rparr>) now"
    using b by (auto simp: datetime_le_def date_less_def date_eq_def time_less_def midnight_def
        datetime_eq_iff)
qed

lemma aggregate_usage_window:
  assumes "valid_datetime start_dt" "valid_datetime now" "stamped time_of (usage s)"
  shows "aggregate_usage s uid start_dt now = totals (window_rows time_of uid start_dt now (usage s))"
proof -
  have "filter (in_window uid (datetime_isoformat start_dt) (datetime_isoformat now)) (usage s)
          = window_rows time_of uid start_dt now (usage s)"
    unfolding window_rows_def
  proof (rule filter_cong [OF refl])
    fix r
    assume "r \<in> set (usage s)"
    with assms(3) have "valid_datetime (time_of r)" "timestamp r = datetime_isoformat (time_of r)"
      by (simp_all add: stamped_def)
    then show "in_window uid (datetime_isoformat start_dt) (datetime_isoformat now) r
               = (user_id r = uid \<and> datetime_le start_dt (time_of r) \<and> datetime_le (time_of r) now)"
      using assms(1,2) by (simp add: in_window_def datetime_isoformat_le)
  qed
  then show ?thesis
    by (simp add: aggregate_usage_def totals_def Let_def)
qed

lemma get_aggregates_windows:
  assumes "valid_datetime now" "7 < toordinal now" "stamped time_of (usage s)"
  shows "get_aggregates s now uid =
           Inr \<lparr>daily = totals (window_rows time_of uid (midnight now) now (usage s)),
                weekly = totals (window_rows time_of uid ((prev_day ^^ 7) now) now (usage s)),
                monthly = totals (window_rows time_of uid ((midnight now)\<lparr>day := 1\<rparr>) now (usage s)),
                yearly = totals (window_rows time_of uid ((midnight now)\<lparr>month := 1, day := 1\<rparr>)
                                   now (usage s))\<rparr>"
proof -
  have lt: "int 7 < toordinal now" using assms(2) by simp
  note b = days_back [OF assms(1) lt]
  show ?thesis
    using assms(1,3) b window_starts [OF assms(1)]
    by (simp add: get_aggregates_def Let_def minus_days_Some [OF assms(1) lt]
          aggregate_usage_window [where time_of = time_of])
qed






lemma digit_char_nth: "digit_char n = ''0123456789'' ! (n mod 10)"
proof -
  have "\<forall>k \<in> {0..<10}. digit_char k = ''0123456789'' ! k"
    by code_simp
  moreover have "n mod 10 \<in> {0..<10}" by simp
  ultimately have "digit_char (n mod 10) = ''0123456789'' ! (n mod 10)" by blast
  then show ?thesis by (simp add: digit_char_def)
qed

lemma fixed_digits_numeral:
  "fixed_digits 2 n = [digit_char (n div 10), digit_char n]"
  "fixed_digits 4 n = [digit_char (n div 10 div 10 div 10), digit_char (n div 10 div 10),
                       digit_char (n div 10), digit_char n]"
  "fixed_digits 6 n = [digit_char (n div 10 div 10 div 10 div 10 div 10),
                       digit_char (n div 10 div 10 div 10 div 10),
                       digit_char (n div 10 div 10 div 10), digit_char (n div 10 div 10),
                       digit_char (n div 10), digit_char n]"
proof -
  have n: "(2::nat) = Suc (Suc 0)" "(4::nat) = Suc (Suc (Suc (Suc 0)))"
    "(6::nat) = Suc (Suc (Suc (Suc (Suc (Suc 0)))))"
    by simp_all
  show "fixed_digits 2 n = [digit_char (n div 10), digit_char n]"
    unfolding n(1) by simp
  show "fixed_digits 4 n = [digit_char (n div 10 div 10 div 10), digit_char (n div 10 div 10),
                       digit_char (n div 10), digit_char n]"
    unfolding n(2) by simp
  show "fixed_digits 6 n = [digit_char (n div 10 div 10 div 10 div 10 div 10),
                       digit_char (n div 10 div 10 div 10 div 10),
                       digit_char (n div 10 div 10 div 10), digit_char (n div 10 div 10),
                       digit_char (n div 10), digit_char n]"
    unfolding n(3) by simp
qed

lemma example_now_valid: "valid_datetime example_now" "7 < toordinal example_now"
  by (simp_all add: example_now_def valid_datetime_def valid_date_def days_in_month_def
        toordinal_def days_before_year_def days_before_month_def days_before_month_table_def)

lemma funpow_7: "(f ^^ 7) t = f (f (f (f (f (f (f t))))))"
proof -
  have "(7::nat) = Suc (Suc (Suc (Suc (Suc (Suc (Suc 0))))))" by simp
  then show ?thesis by (simp only: funpow.simps comp_apply id_apply)
qed

lemma prev_day_record:
  "prev_day \<lparr>year = y, month = m, day = d, hour = h, minute = mi, second = sec, microsecond = u\<rparr> =
     (if 1 < d
        then \<lparr>year = y, month = m, day = d - 1, hour = h, minute = mi, second = sec, microsecond = u\<rparr>
      else if 1 < m
        then \<lparr>year = y, month = m - 1, day = days_in_month y (m - 1), hour = h, minute = mi,
              second = sec, microsecond = u\<rparr>
      else \<lparr>year = y - 1, month = 12, day = 31, hour = h, minute = mi, second = sec,
            microsecond = u\<rparr>)"
  by (simp add: prev_day_def)

lemma example_week_start:
  "(prev_day ^^ 7) example_now =
     \<lparr>year = 2024, month = 2, day = 27, hour = 10, minute = 30, second = 0, microsecond = 0\<rparr>"
  unfolding funpow_7 example_now_def
  by (simp add: prev_day_record days_in_month_def is_leap_def)

lemma example_stamped: "stamped example_time_of example_usage"
proof -
  have v: "\<forall>r \<in> set example_usage. valid_datetime (example_time_of r)"
    by (simp add: example_usage_def example_time_of_def valid_datetime_def valid_date_def
          days_in_month_def is_leap_def)
  have "\<forall>r \<in> set example_usage.
          timestamp r =
           fixed_digits 4 (nat (year (example_time_of r))) @ CHR ''-'' # fixed_digits 2 (nat (month (example_time_of r)))
             @ CHR ''-'' # fixed_digits 2 (nat (day (example_time_of r))) @ CHR ''T'' # fixed_digits 2 (nat (hour (example_time_of r)))
             @ CHR '':'' # fixed_digits 2 (nat (minute (example_time_of r)))
             @ CHR '':'' # fixed_digits 2 (nat (second (example_time_of r)))
             @ (if microsecond (example_time_of r) \<noteq> 0 then CHR ''.'' # fixed_digits 6 (nat (microsecond (example_time_of r))) else [])"
    by (simp add: example_usage_def example_time_of_def fixed_digits_numeral digit_char_nth)
  with v show ?thesis
    by (simp add: stamped_def datetime_isoformat_fixed)
qed

lemma example_windows:
  "totals (window_rows example_time_of 7 (midnight example_now) example_now example_usage)
     = (3, Fin (3 / 2))"
  "totals (window_rows example_time_of 7 ((prev_day ^^ 7) example_now) example_now example_usage)
     = (7, Fin (7 / 2))"
  "totals (window_rows example_time_of 7 ((midnight example_now)\<lparr>day := 1\<rparr>) example_now
             example_usage) = (7, Fin (7 / 2))"
  "totals (window_rows example_time_of 7 ((midnight example_now)\<lparr>month := 1, day := 1\<rparr>)
             example_now example_usage) = (9, Fin (9 / 2))"
  unfolding example_week_start
  by (simp_all add: window_rows_def example_usage_def example_time_of_def example_now_def
        midnight_def datetime_le_def date_less_def date_eq_def time_less_def totals_def
        sql_sum_real_def ifnull_zero_def)

lemma example_aggregates:
  "get_aggregates example_usage_state example_now 7 =
     Inr \<lparr>daily = (3, Fin (3 / 2)), weekly = (7, Fin (7 / 2)),
          monthly = (7, Fin (7 / 2)), yearly = (9, Fin (9 / 2))\<rparr>"
proof -
  have u: "usage example_usage_state = example_usage"
    by (simp add: example_usage_state_def)
  have "stamped example_time_of (usage example_usage_state)"
    unfolding u by (rule example_stamped)
  from get_aggregates_windows [OF example_now_valid this, of 7] show ?thesis
    unfolding u example_windows .
qed



lemma start_date_examples:
  "strptime_ymd ''2023-03-05'' = Some \<lparr>year = 2023, month = 3, day = 5\<rparr>"
  "strptime_ymd ''2024-03-05'' = Some \<lparr>year = 2024, month = 3, day = 5\<rparr>"
  "strptime_ymd ''not-a-date'' = None"
  "days_between \<lparr>year = 2024, month = 3, day = 5\<rparr> \<lparr>year = 2023, month = 3, day = 5\<rparr> = 366"
  by code_simp+

theorem theoretical_spent_since_start_witness:
  "theoretical_spent_since_start example_usage_state example_now (date_of example_now) 7 None
     = Inr (Fin 0)
   \<and> theoretical_spent_since_start example_usage_state example_now (date_of example_now) 7
        (Some ''not-a-date'') = Inr (Fin 0)
   \<and> theoretical_spent_since_start example_usage_state example_now (date_of example_now) 7
        (Some ''2023-03-05'') = Inr (Fin (1101 / 2))
   \<and> theoretical_spent_since_start example_usage_state example_now (date_of example_now) 7
        (Some ''2024-03-05'') = Inr (Fin (3 / 2))
   \<and> theoretical_spent_since_start example_usage_state example_now (date_of example_now) 7
        (Some ''2099-01-01'') = Inr (Fin 0)"
proof -
  let ?s = example_usage_state
  let ?t = "date_of example_now"
  let ?aggr = "\<lparr>daily = (3, Fin (3 / 2)), weekly = (7, Fin (7 / 2)),
          monthly = (7, Fin (7 / 2)), yearly = (9, Fin (9 / 2))\<rparr>"
  have today: "?t = \<lparr>year = 2024, month = 3, day = 5\<rparr>"
    by (simp add: date_of_def example_now_def)
  have v: "valid_date ?t"
    unfolding today by (rule example_dates)
  have 1: "theoretical_spent_since_start ?s example_now ?t 7 None = Inr (Fin 0)"
    using theoretical_spent_since_start_cases [of None ?s example_now ?t 7]
    by simp
  have 2: "theoretical_spent_since_start ?s example_now ?t 7 (Some ''not-a-date'') = Inr (Fin 0)"
    using theoretical_spent_since_start_cases [of "Some ''not-a-date''" ?s example_now ?t 7]
    by (simp add: start_date_examples)
  have o: "\<not> date_less ?t \<lparr>year = 2023, month = 3, day = 5\<rparr>"
    unfolding today by (simp add: date_less_def)
  have "theoretical_spent_since_start ?s example_now ?t 7 (Some ''2023-03-05'')
          = Inr (float_mul_int (snd (daily ?aggr))
                   (days_between ?t \<lparr>year = 2023, month = 3, day = 5\<rparr> + 1))"
    using theoretical_spent_since_start_cases [of "Some ''2023-03-05''" ?s example_now ?t 7
        "''2023-03-05''" "\<lparr>year = 2023, month = 3, day = 5\<rparr>" ?aggr] o
    by (simp add: start_date_examples example_aggregates)
  then have 3: "theoretical_spent_since_start ?s example_now ?t 7 (Some ''2023-03-05'')
          = Inr (Fin (1101 / 2))"
    unfolding today by (simp add: start_date_examples float_mul_int_def float_of_int_def)
  have "theoretical_spent_since_start ?s example_now ?t 7 (Some ''2024-03-05'')
          = Inr (float_mul_int (snd (daily ?aggr)) 1)"
    using theoretical_spent_since_start_cases [of "Some ''2024-03-05''" ?s example_now ?t 7
        "''2024-03-05''" ?t ?aggr]
    by (simp add: start_date_examples example_aggregates today)
  then have 4: "theoretical_spent_since_start ?s example_now ?t 7 (Some ''2024-03-05'')
          = Inr (Fin (3 / 2))"
    by (simp add: float_mul_int_def float_of_int_def)
  have 5: "theoretical_spent_since_start ?s example_now ?t 7 (Some ''2099-01-01'') = Inr (Fin 0)"
    using theoretical_spent_since_start_cases [of "Some ''2099-01-01''" ?s example_now ?t 7
        "''2099-01-01''" "\<lparr>year = 2099, month = 1, day = 1\<rparr>" ?aggr]
      date_examples(4)
    by (simp add: date_examples(2) example_aggregates)
  from 1 2 3 4 5 show ?thesis by (intro conjI)
qed

end
